theory Spec2Isabelle
  imports Main "HOL-Library.Sublist" "HOL-Library.Multiset"
begin

section \<open>Go library functions used by the transformer\<close>

text \<open>
  Go strings are byte sequences; \<open>string\<close> (a list of 8-bit characters) models them, and
  \<open>length\<close> is Go's \<open>len\<close>. The functions of this section belong to Go's standard library
  (\<open>strings\<close>, \<open>strconv\<close>); they are written out as far as the transformer uses them.
\<close>

text \<open>\<open>strings.Split(s, sep)\<close> for a separator of one byte: always at least one part.\<close>

fun Split :: "string \<Rightarrow> char \<Rightarrow> string list" where
  "Split [] sep = [[]]"
| "Split (c # cs) sep =
     (if c = sep then [] # Split cs sep
      else (case Split cs sep of [] \<Rightarrow> [[c]] | p # ps \<Rightarrow> (c # p) # ps))"

text \<open>\<open>strings.Contains(s, substr)\<close>.\<close>

fun Contains :: "string \<Rightarrow> string \<Rightarrow> bool" where
  "Contains [] sub = (sub = [])"
| "Contains (c # cs) sub = (prefix sub (c # cs) \<or> Contains cs sub)"

text \<open>\<open>strings.Trim(s, cutset)\<close> for a cutset of ASCII bytes: strips them from both ends.\<close>

definition Trim :: "string \<Rightarrow> char set \<Rightarrow> string" where
  "Trim s cutset = rev (dropWhile (\<lambda>c. c \<in> cutset) (rev (dropWhile (\<lambda>c. c \<in> cutset) s)))"

text \<open>
  \<open>strconv.ParseInt(s, 10, 64)\<close>: an optional sign, then one or more decimal digits and
  nothing else; a value outside the 64-bit signed range is a range error. \<open>None\<close> stands
  for a non-nil \<open>err\<close>. \<open>strconv.Atoi\<close> is the same function where \<open>int\<close> has 64 bits.
\<close>

definition isDigit :: "char \<Rightarrow> bool" where
  "isDigit c = (48 \<le> (of_char c :: nat) \<and> (of_char c :: nat) \<le> 57)"

definition digitVal :: "char \<Rightarrow> int" where
  "digitVal c = int (of_char c) - 48"

fun parseDigits :: "int \<Rightarrow> string \<Rightarrow> int option" where
  "parseDigits n [] = Some n"
| "parseDigits n (c # cs) = (if isDigit c then parseDigits (n * 10 + digitVal c) cs else None)"

definition ParseInt :: "string \<Rightarrow> int option" where
  "ParseInt s =
     (let body = (case s of [] \<Rightarrow> [] | c # cs \<Rightarrow> if c = CHR ''+'' \<or> c = CHR ''-'' then cs else s);
          neg = (case s of [] \<Rightarrow> False | c # cs \<Rightarrow> c = CHR ''-'')
      in if body = [] then None
         else (case parseDigits 0 body of
                 None \<Rightarrow> None
               | Some un \<Rightarrow>
                   let v = (if neg then - un else un)
                   in if - (2 ^ 63) \<le> v \<and> v \<le> 2 ^ 63 - 1 then Some v else None))"

definition Atoi :: "string \<Rightarrow> int option" where
  "Atoi s = ParseInt s"

text \<open>The conversion \<open>int32(v)\<close> of a wider integer keeps the low 32 bits, read as signed.\<close>

definition int32 :: "int \<Rightarrow> int" where
  "int32 v = (v + 2 ^ 31) mod 2 ^ 32 - 2 ^ 31"

section \<open>Data model\<close>

text \<open>
  \<open>kobject.ServiceConfig\<close>, with the fields the functions below read. \<open>Labels\<close> is a Go
  map: a missing key reads as the empty string. \<open>GroupAdd\<close> is a slice that may be \<open>nil\<close>
  (\<open>None\<close>). \<open>Volumes\<close> is only measured, so its elements are volume names.
\<close>

record ServiceConfig =
  Name :: string
  Labels :: "string \<rightharpoonup> string"
  NetworkMode :: string
  Volumes :: "string list"
  User :: string
  Pid :: string
  GroupAdd :: "int list option"
  FsGroup :: int
  Privileged :: bool
  ReadOnly :: bool
  Replicas :: int

definition label :: "(string \<rightharpoonup> string) \<Rightarrow> string \<Rightarrow> string" where
  "label m k = (case m k of None \<Rightarrow> [] | Some v \<Rightarrow> v)"

text \<open>The Kubernetes API structures, with the fields the transformer writes.\<close>

record Capabilities =
  Add :: "string list"
  Drop :: "string list"

record SecurityContext =
  Capabilities :: "Capabilities option"
  Privileged_ptr :: "bool option"
  RunAsUser :: "int option"
  RunAsGroup :: "int option"
  ReadOnlyRootFilesystem :: "bool option"

record PodSecurityContext =
  SupplementalGroups :: "int list option"
  FSGroup :: "int option"

record VolumeMount =
  VolumeMount_Name :: string
  MountPath :: string
  VolumeMount_ReadOnly :: bool

record Volume =
  Volume_Name :: string
  VolumeSource :: string

record Container =
  Container_Name :: string
  Image :: string
  VolumeMounts :: "VolumeMount list"
  Container_SecurityContext :: "SecurityContext option"

record PodSpec =
  Containers :: "Container list"
  Volumes_of :: "Volume list"
  Pod_SecurityContext :: "PodSecurityContext option"

text \<open>
  A \<open>runtime.Object\<close> of the output list. \<open>GoType\<close> is the dynamic Go type behind the
  interface (what a type switch or type assertion sees); \<open>Group\<close>, \<open>Version\<close> and \<open>Kind\<close> are
  what \<open>obj.GetObjectKind().GroupVersionKind()\<close> returns, read from the object's
  \<open>TypeMeta\<close>, which is a pair of strings independent of the Go type. Every type but
  \<open>GoNoMeta\<close> implements \<open>metav1.Object\<close>. Each slot of an object list holds a pointer of
  its own, so a write through one slot is a change of that slot only. \<open>Other_Fields\<close>
  stands for the rest of the object's content, which the functions below copy and
  compare but never read.
\<close>

datatype gotype =
    GoDeployment | GoDeploymentConfig | GoStatefulSet | GoDaemonSet | GoPod
  | GoService | GoPersistentVolumeClaim | GoConfigMap | GoHorizontalPodAutoscaler
  | GoOtherMeta | GoNoMeta

text \<open>
  A claim or a config map before it enters the object list: its \<open>TypeMeta\<close> (as group,
  version and kind), its namespace and name, and the rest of its content.
\<close>

record TypedMeta =
  meta_Group :: string
  meta_Version :: string
  meta_Kind :: string
  meta_Namespace :: string
  meta_Name :: string
  meta_Other :: string

type_synonym PersistentVolumeClaim = TypedMeta
type_synonym ConfigMap = TypedMeta

record object =
  GoType :: gotype
  Group :: string
  Version :: string
  Kind :: string
  ObjectMeta_Namespace :: string
  ObjectMeta_Name :: string
  Template_Containers :: "Container list"
  Strategy_Type :: string
  VolumeClaimTemplates :: "PersistentVolumeClaim list"
  Other_Fields :: string

definition implementsMetaObject :: "object \<Rightarrow> bool" where
  "implementsMetaObject obj = (GoType obj \<noteq> GoNoMeta)"

text \<open>\<open>schema.GroupVersionKind.String()\<close> of the Kubernetes library.\<close>

definition GroupVersionKind_String :: "object \<Rightarrow> string" where
  "GroupVersionKind_String obj = Group obj @ ''/'' @ Version obj @ '', Kind='' @ Kind obj"

section \<open>PostProcessor: sorting and deduplication\<close>

text \<open>\<open>SortServicesFirst\<close>: the loop fills \<open>svc\<close> and \<open>others\<close>, then both are appended.\<close>

fun SortServicesFirst_loop ::
  "object list \<Rightarrow> object list \<Rightarrow> object list \<Rightarrow> object list \<times> object list" where
  "SortServicesFirst_loop [] svc others = (svc, others)"
| "SortServicesFirst_loop (obj # objs) svc others =
     (if Kind obj = ''Service''
      then SortServicesFirst_loop objs (svc @ [obj]) others
      else SortServicesFirst_loop objs svc (others @ [obj]))"

definition SortServicesFirst :: "object list \<Rightarrow> object list" where
  "SortServicesFirst objs =
     (case SortServicesFirst_loop objs [] [] of (svc, others) \<Rightarrow> ([] @ svc) @ others)"

text \<open>
  \<open>RemoveDupObjects\<close>: \<open>exist\<close> is the map from keys to \<open>true\<close>, here the set of its keys.
  The key is the concatenation of three strings, as the source builds it.
\<close>

definition dupKey :: "object \<Rightarrow> string" where
  "dupKey obj = GroupVersionKind_String obj @ ObjectMeta_Namespace obj @ ObjectMeta_Name obj"

fun RemoveDupObjects_loop :: "object list \<Rightarrow> object list \<Rightarrow> string set \<Rightarrow> object list" where
  "RemoveDupObjects_loop [] result exist = result"
| "RemoveDupObjects_loop (obj # objs) result exist =
     (if implementsMetaObject obj
      then (if dupKey obj \<in> exist
            then RemoveDupObjects_loop objs result exist
            else RemoveDupObjects_loop objs (result @ [obj]) (insert (dupKey obj) exist))
      else RemoveDupObjects_loop objs (result @ [obj]) exist)"

definition RemoveDupObjects :: "object list \<Rightarrow> object list" where
  "RemoveDupObjects objs = RemoveDupObjects_loop objs [] {}"

section \<open>AutoscalerSynthesizer\<close>

definition DefaultMinReplicas :: int where "DefaultMinReplicas = 1"
definition DefaultMaxReplicas :: int where "DefaultMaxReplicas = 3"
definition DefaultCPUUtilization :: int where "DefaultCPUUtilization = 50"
definition DefaultMemoryUtilization :: int where "DefaultMemoryUtilization = 70"

text \<open>
  The four label keys are constants of the \<open>compose\<close> loader package; the functions take
  them as a parameter.
\<close>

record HpaLabelKeys =
  LabelHpaMinReplicas :: string
  LabelHpaMaxReplicas :: string
  LabelHpaCPU :: string
  LabelHpaMemory :: string

text \<open>The fields are \<open>int32\<close>: integers that every function below keeps in that range.\<close>

record HpaValues =
  MinReplicas :: int
  MaxReplicas :: int
  CPUtilization :: int
  MemoryUtilization :: int

definition getHpaValue :: "ServiceConfig \<Rightarrow> string \<Rightarrow> int \<Rightarrow> int" where
  "getHpaValue service lbl defaultValue =
     (case Atoi (label (Labels service) lbl) of
        None \<Rightarrow> defaultValue
      | Some valueFromLabel \<Rightarrow>
          if valueFromLabel < 0 then defaultValue else int32 valueFromLabel)"

definition validatePercentageMetric :: "ServiceConfig \<Rightarrow> string \<Rightarrow> int \<Rightarrow> int" where
  "validatePercentageMetric service metricLabel defaultValue =
     (let metricValue = getHpaValue service metricLabel defaultValue
      in if metricValue > 100 \<or> metricValue < 1 then defaultValue else metricValue)"

definition getResourceHpaValues :: "HpaLabelKeys \<Rightarrow> ServiceConfig \<Rightarrow> HpaValues" where
  "getResourceHpaValues keys service =
     (let minReplicas = getHpaValue service (LabelHpaMinReplicas keys) DefaultMinReplicas;
          maxReplicas0 = getHpaValue service (LabelHpaMaxReplicas keys) DefaultMaxReplicas;
          maxReplicas = (if maxReplicas0 < minReplicas then minReplicas else maxReplicas0);
          cpuUtilization =
            validatePercentageMetric service (LabelHpaCPU keys) DefaultCPUUtilization;
          memoryUtilization =
            validatePercentageMetric service (LabelHpaMemory keys) DefaultMemoryUtilization
      in \<lparr>MinReplicas = minReplicas, MaxReplicas = maxReplicas,
          CPUtilization = cpuUtilization, MemoryUtilization = memoryUtilization\<rparr>)"

record MetricSpec =
  Metric_Type :: string
  Resource_Name :: string
  Target_Type :: string
  AverageUtilization :: int

definition resourceMetric :: "string \<Rightarrow> int \<Rightarrow> MetricSpec" where
  "resourceMetric nm v =
     \<lparr>Metric_Type = ''Resource'', Resource_Name = nm,
      Target_Type = ''Utilization'', AverageUtilization = v\<rparr>"

definition getHpaMetricSpec :: "HpaValues \<Rightarrow> MetricSpec list" where
  "getHpaMetricSpec hpaValues =
     (let metrics0 = [];
          metrics1 = (if CPUtilization hpaValues > 0
                      then metrics0 @ [resourceMetric ''cpu'' (CPUtilization hpaValues)]
                      else metrics0)
      in if MemoryUtilization hpaValues > 0
         then metrics1 @ [resourceMetric ''memory'' (MemoryUtilization hpaValues)]
         else metrics1)"

record HorizontalPodAutoscaler =
  hpa_Kind :: string
  hpa_APIVersion :: string
  hpa_Name :: string
  ScaleTargetRef :: "string \<times> string \<times> string"
  hpa_MinReplicas :: int
  hpa_MaxReplicas :: int
  Metrics :: "MetricSpec list"

text \<open>
  \<open>createHPAResources\<close> also writes \<open>service.Replicas = 0\<close> through its pointer argument:
  the updated service is the second component of the result.
\<close>

definition createHPAResources ::
  "HpaLabelKeys \<Rightarrow> string \<Rightarrow> ServiceConfig \<Rightarrow> HorizontalPodAutoscaler \<times> ServiceConfig" where
  "createHPAResources keys nm service =
     (let valuesHpa = getResourceHpaValues keys service;
          service' = service\<lparr>Replicas := 0\<rparr>;
          metrics = getHpaMetricSpec valuesHpa
      in (\<lparr>hpa_Kind = ''HorizontalPodAutoscaler'', hpa_APIVersion = ''autoscaling/v2'',
           hpa_Name = nm, ScaleTargetRef = (''Deployment'', nm, ''apps/v1''),
           hpa_MinReplicas = MinReplicas valuesHpa, hpa_MaxReplicas = MaxReplicas valuesHpa,
           Metrics = metrics\<rparr>, service'))"

section \<open>Naming of env artifacts\<close>

text \<open>A Go panic: the run-time error of an index out of range, or \<open>panic(v)\<close>.\<close>

datatype panic = IndexOutOfRange | Panic string

text \<open>
  Go's regular expressions read a string rune by rune. \<open>runeWidth\<close> is the number of bytes
  of the first rune as \<open>utf8.DecodeRuneInString\<close> reports it: 1 for an ASCII byte and for a
  byte that starts no valid UTF-8 sequence, 2 to 4 for a valid multi-byte sequence.
\<close>

definition between :: "nat \<Rightarrow> nat \<Rightarrow> char \<Rightarrow> bool" where
  "between lo hi c = (lo \<le> of_char c \<and> (of_char c :: nat) \<le> hi)"

definition cont :: "string \<Rightarrow> nat \<Rightarrow> bool" where
  "cont s i = (i < length s \<and> between 128 191 (s ! i))"

definition runeWidth :: "string \<Rightarrow> nat" where
  "runeWidth s =
     (case s of
        [] \<Rightarrow> 0
      | b0 # rest \<Rightarrow>
          if between 194 223 b0 then (if cont s 1 then 2 else 1)
          else if between 224 239 b0 then
            (if 2 < length s \<and>
                between (if of_char b0 = (224 :: nat) then 160 else 128)
                        (if of_char b0 = (237 :: nat) then 159 else 191) (s ! 1) \<and>
                cont s 2
             then 3 else 1)
          else if between 240 244 b0 then
            (if 3 < length s \<and>
                between (if of_char b0 = (240 :: nat) then 144 else 128)
                        (if of_char b0 = (244 :: nat) then 143 else 191) (s ! 1) \<and>
                cont s 2 \<and> cont s 3
             then 4 else 1)
          else 1)"

definition isAlnum :: "char \<Rightarrow> bool" where
  "isAlnum c = (between 97 122 c \<or> between 65 90 c \<or> between 48 57 c)"

text \<open>
  \<open>regexp.MustCompile(`[^a-zA-Z0-9]`).ReplaceAllString(s, "-")\<close>: every rune that is not
  an ASCII letter or digit becomes one dash, whatever its width.
\<close>

function replaceNonAlnum :: "string \<Rightarrow> string" where
  "replaceNonAlnum [] = []"
| "replaceNonAlnum (c # cs) =
     (if isAlnum c then c # replaceNonAlnum cs
      else CHR ''-'' # replaceNonAlnum (drop (runeWidth (c # cs) - 1) cs))"
  by pat_completeness auto
termination
  by (relation "measure length") auto

definition getUsableNameEnvFile :: "string \<Rightarrow> string \<Rightarrow> panic + string" where
  "getUsableNameEnvFile envName serviceName =
     (case envName of
        [] \<Rightarrow> Inl IndexOutOfRange
      | c # _ \<Rightarrow>
          let envName1 = (if [c] = ''-'' then serviceName @ envName else envName);
              envName2 = (if length envName1 > 63 then take 63 envName1 else envName1)
          in Inr envName2)"

definition FormatEnvName :: "string \<Rightarrow> string \<Rightarrow> panic + string" where
  "FormatEnvName nm serviceName =
     (let envName = Trim nm (set ''./'');
          envName1 = replaceNonAlnum envName
      in getUsableNameEnvFile envName1 serviceName)"

section \<open>PodSpecBuilder\<close>

text \<open>
  \<open>kobject.HealthCheck\<close>. \<open>Test\<close> is a slice: \<open>None\<close> is \<open>nil\<close>, which \<open>reflect.DeepEqual\<close>
  tells from an empty slice. The numeric fields are \<open>int32\<close>; they are copied and compared
  with zero only.
\<close>

record HealthCheck =
  Test :: "string list option"
  Timeout :: int
  Interval :: int
  Retries :: int
  StartPeriod :: int
  Disable :: bool
  HTTPPath :: string
  HTTPPort :: int
  TCPPort :: int

definition HealthCheck_zero :: HealthCheck where
  "HealthCheck_zero =
     \<lparr>Test = None, Timeout = 0, Interval = 0, Retries = 0, StartPeriod = 0,
      Disable = False, HTTPPath = [], HTTPPort = 0, TCPPort = 0\<rparr>"

definition len :: "'a list option \<Rightarrow> nat" where
  "len xs = (case xs of None \<Rightarrow> 0 | Some ys \<Rightarrow> length ys)"

text \<open>
  \<open>api.Probe\<close> with its embedded \<open>ProbeHandler\<close>: three pointers, \<open>None\<close> when \<open>nil\<close>.
\<close>

record Probe =
  Exec :: "string list option option"
  HTTPGet :: "(string \<times> int) option"
  TCPSocket :: "int option"
  TimeoutSeconds :: int
  PeriodSeconds :: int
  FailureThreshold :: int
  InitialDelaySeconds :: int

definition Probe_zero :: Probe where
  "Probe_zero =
     \<lparr>Exec = None, HTTPGet = None, TCPSocket = None, TimeoutSeconds = 0,
      PeriodSeconds = 0, FailureThreshold = 0, InitialDelaySeconds = 0\<rparr>"

definition configProbe :: "HealthCheck \<Rightarrow> panic + Probe option" where
  "configProbe healthCheck =
     (let probe = Probe_zero
      in if healthCheck = HealthCheck_zero \<or> Disable healthCheck then Inr None
         else
           (case
              (if len (Test healthCheck) > 0
               then Inr (probe\<lparr>Exec := Some (Test healthCheck), HTTPGet := None,
                                TCPSocket := None\<rparr>)
               else if HTTPPath healthCheck \<noteq> [] \<and> HTTPPort healthCheck \<noteq> 0
               then Inr (probe\<lparr>Exec := None,
                                HTTPGet := Some (HTTPPath healthCheck, HTTPPort healthCheck),
                                TCPSocket := None\<rparr>)
               else if TCPPort healthCheck \<noteq> 0
               then Inr (probe\<lparr>Exec := None, HTTPGet := None,
                                TCPSocket := Some (TCPPort healthCheck)\<rparr>)
               else Inl (Panic ''Health check must contain a command''))
            of
              Inl e \<Rightarrow> Inl e
            | Inr probe1 \<Rightarrow>
                Inr (Some (probe1\<lparr>TimeoutSeconds := Timeout healthCheck,
                                   PeriodSeconds := Interval healthCheck,
                                   FailureThreshold := Retries healthCheck,
                                   InitialDelaySeconds := StartPeriod healthCheck\<rparr>))))"

text \<open>The number of handlers a probe carries.\<close>

definition handlers :: "Probe \<Rightarrow> nat" where
  "handlers p =
     (if Exec p = None then 0 else 1) + (if HTTPGet p = None then 0 else 1) +
     (if TCPSocket p = None then 0 else 1)"

text \<open>
  \<open>SetVolumeNames\<close> and \<open>SetVolumeMountPaths\<close> build a \<open>mapset.Set\<close>. Iterating such a set
  (\<open>Iter()\<close>) delivers each element once, in an order the Go runtime chooses:
  \<open>iteration S ord\<close> says that \<open>ord\<close> is one such order. \<open>SetVolumes\<close> and \<open>SetVolumeMounts\<close>
  take the order of each iteration as an argument (the first one).
\<close>

definition SetVolumeNames :: "Volume list \<Rightarrow> string set" where
  "SetVolumeNames volumes = set (map Volume_Name volumes)"

definition SetVolumeMountPaths :: "VolumeMount list \<Rightarrow> string set" where
  "SetVolumeMountPaths volumesMount = set (map MountPath volumesMount)"

definition iteration :: "string set \<Rightarrow> string list \<Rightarrow> bool" where
  "iteration S ord = (distinct ord \<and> set ord = S)"

text \<open>The inner loop: append the first element with the given key, if there is one.\<close>

definition appendFirst :: "('a \<Rightarrow> bool) \<Rightarrow> 'a list \<Rightarrow> 'a list \<Rightarrow> 'a list" where
  "appendFirst P candidates xs =
     (case find P candidates of None \<Rightarrow> xs | Some x \<Rightarrow> xs @ [x])"

definition SetVolumes :: "string list \<Rightarrow> Volume list \<Rightarrow> PodSpec \<Rightarrow> PodSpec" where
  "SetVolumes ord volumes podSpec =
     fold (\<lambda>diffVolumeName ps.
             ps\<lparr>Volumes_of :=
                  appendFirst (\<lambda>volume. Volume_Name volume = diffVolumeName) volumes
                    (Volumes_of ps)\<rparr>)
          ord podSpec"

definition SetVolumes_iteration :: "Volume list \<Rightarrow> PodSpec \<Rightarrow> string list \<Rightarrow> bool" where
  "SetVolumes_iteration volumes podSpec ord =
     iteration (SetVolumeNames volumes - SetVolumeNames (Volumes_of podSpec)) ord"

definition SetVolumeMounts_container :: "string list \<Rightarrow> VolumeMount list \<Rightarrow> Container \<Rightarrow> Container" where
  "SetVolumeMounts_container ord volumesMount container =
     fold (\<lambda>diffVolumeMountPath c.
             c\<lparr>VolumeMounts :=
                 appendFirst (\<lambda>volumeMount. MountPath volumeMount = diffVolumeMountPath)
                   volumesMount (VolumeMounts c)\<rparr>)
          ord container"

definition SetVolumeMounts :: "(nat \<Rightarrow> string list) \<Rightarrow> VolumeMount list \<Rightarrow> PodSpec \<Rightarrow> PodSpec" where
  "SetVolumeMounts ords volumesMount podSpec =
     podSpec\<lparr>Containers :=
       map (\<lambda>i. SetVolumeMounts_container (ords i) volumesMount (Containers podSpec ! i))
           [0 ..< length (Containers podSpec)]\<rparr>"

definition SetVolumeMounts_iteration :: "VolumeMount list \<Rightarrow> PodSpec \<Rightarrow> (nat \<Rightarrow> string list) \<Rightarrow> bool" where
  "SetVolumeMounts_iteration volumesMount podSpec ords =
     list_all (\<lambda>i. iteration (SetVolumeMountPaths volumesMount -
                               SetVolumeMountPaths (VolumeMounts (Containers podSpec ! i)))
                             (ords i))
              [0 ..< length (Containers podSpec)]"

text \<open>
  The security context step. \<open>userDirective\<close> is the block guarded by
  \<open>service.User != ""\<close>; the same block stands in the template filler of
  \<open>UpdateKubernetesObjects\<close>. The warnings it logs have no effect on the result.
\<close>

definition SecurityContext_zero :: SecurityContext where
  "SecurityContext_zero =
     \<lparr>Capabilities = None, Privileged_ptr = None, RunAsUser = None, RunAsGroup = None,
      ReadOnlyRootFilesystem = None\<rparr>"

definition PodSecurityContext_zero :: PodSecurityContext where
  "PodSecurityContext_zero = \<lparr>SupplementalGroups = None, FSGroup = None\<rparr>"

definition userDirective :: "string \<Rightarrow> SecurityContext \<Rightarrow> SecurityContext" where
  "userDirective user securityContext =
     (if user \<noteq> [] then
        (let userparts = Split user CHR '':'' in
           if length userparts = 1 then
             (case ParseInt (userparts ! 0) of
                None \<Rightarrow> securityContext
              | Some uid \<Rightarrow> securityContext\<lparr>RunAsUser := Some uid\<rparr>)
           else if length userparts = 2 then
             (let securityContext1 =
                    (case ParseInt (userparts ! 0) of
                       None \<Rightarrow> securityContext
                     | Some uid \<Rightarrow> securityContext\<lparr>RunAsUser := Some uid\<rparr>)
              in case ParseInt (userparts ! 1) of
                   None \<Rightarrow> securityContext1
                 | Some gid \<Rightarrow> securityContext1\<lparr>RunAsGroup := Some gid\<rparr>)
           else securityContext)
      else securityContext)"

text \<open>
  The value of the local variable \<open>securityContext\<close> when the step decides whether to
  attach it. \<open>capabilities\<close> is what \<open>ConfigCapabilities(service)\<close> returns.
\<close>

definition securityContext_of :: "ServiceConfig \<Rightarrow> Capabilities \<Rightarrow> SecurityContext" where
  "securityContext_of service capabilities =
     (let securityContext0 = SecurityContext_zero;
          securityContext1 = (if Privileged service
                              then securityContext0\<lparr>Privileged_ptr := Some (Privileged service)\<rparr>
                              else securityContext0);
          securityContext2 = userDirective (User service) securityContext1
      in if length (Add capabilities) > 0 \<or> length (Drop capabilities) > 0
         then securityContext2\<lparr>Capabilities := Some capabilities\<rparr>
         else securityContext2)"

text \<open>
  The template filler of \<open>UpdateKubernetesObjects\<close> builds its security context by the
  same steps and then sets the read-only flag.
\<close>

definition fillTemplate_securityContext :: "ServiceConfig \<Rightarrow> Capabilities \<Rightarrow> SecurityContext" where
  "fillTemplate_securityContext service capabilities =
     (let securityContext = securityContext_of service capabilities
      in if ReadOnly service
         then securityContext\<lparr>ReadOnlyRootFilesystem := Some (ReadOnly service)\<rparr>
         else securityContext)"

definition podSecurityContext_of :: "ServiceConfig \<Rightarrow> PodSecurityContext" where
  "podSecurityContext_of service =
     (let podSecurityContext0 = PodSecurityContext_zero;
          podSecurityContext1 = (if GroupAdd service \<noteq> None
                                 then podSecurityContext0\<lparr>SupplementalGroups := GroupAdd service\<rparr>
                                 else podSecurityContext0)
      in if FsGroup service \<noteq> 0
         then podSecurityContext1\<lparr>FSGroup := Some (FsGroup service)\<rparr>
         else podSecurityContext1)"

definition SecurityContext :: "string \<Rightarrow> ServiceConfig \<Rightarrow> Capabilities \<Rightarrow> PodSpec \<Rightarrow> panic + PodSpec" where
  "SecurityContext nm service capabilities podSpec =
     (let securityContext = securityContext_of service capabilities;
          podSecurityContext = podSecurityContext_of service
      in case (if securityContext \<noteq> SecurityContext_zero
               then (case Containers podSpec of
                       [] \<Rightarrow> Inl IndexOutOfRange
                     | c # cs \<Rightarrow>
                         Inr (podSpec\<lparr>Containers :=
                                c\<lparr>Container_SecurityContext := Some securityContext\<rparr> # cs\<rparr>))
               else Inr podSpec) of
           Inl e \<Rightarrow> Inl e
         | Inr podSpec1 \<Rightarrow>
             Inr (if podSecurityContext \<noteq> PodSecurityContext_zero
                  then podSpec1\<lparr>Pod_SecurityContext := Some podSecurityContext\<rparr>
                  else podSpec1))"

section \<open>Controller update pass\<close>

text \<open>
  \<open>ConvertOptions\<close> and the collaborators of the pass that live in other files of the
  package: \<open>UpdateController\<close> applied to the two fillers (it returns an error or \<open>nil\<close>,
  and leaves the object it was given in some state), the error of \<open>ConfigEnvs\<close>, the
  claims and config maps of \<open>ConfigVolumes\<close> or its error, and the constant
  \<open>StatefulStateController\<close>. An \<open>error\<close> is its message.
\<close>

record ConvertOptions =
  Controller :: string
  Volumes_option :: string

record collaborators =
  UpdateController :: "object \<Rightarrow> string option \<times> object"
  ConfigEnvs :: "string option"
  ConfigVolumes :: "string + PersistentVolumeClaim list \<times> ConfigMap list"
  StatefulStateController :: string

definition Wrap :: "string \<Rightarrow> string \<Rightarrow> string" where
  "Wrap err msg = msg @ '': '' @ err"

text \<open>A claim or a config map as an element of the object list.\<close>

definition asObject :: "gotype \<Rightarrow> TypedMeta \<Rightarrow> object" where
  "asObject t r =
     \<lparr>GoType = t, Group = meta_Group r, Version = meta_Version r, Kind = meta_Kind r,
      ObjectMeta_Namespace = meta_Namespace r, ObjectMeta_Name = meta_Name r,
      Template_Containers = [], Strategy_Type = [], VolumeClaimTemplates = [],
      Other_Fields = meta_Other r\<rparr>"

text \<open>
  The type switch of the loop body, taken when the service has volumes: \<open>t\<close> is the Go
  type of the object, \<open>withClaims\<close> says whether the stateful case is present (it is in
  \<open>UpdateKubernetesObjects\<close> only).
\<close>

definition volumeStrategy ::
  "bool \<Rightarrow> ConvertOptions \<Rightarrow> PersistentVolumeClaim list \<Rightarrow> gotype \<Rightarrow> object \<Rightarrow> object" where
  "volumeStrategy withClaims opt pvc t obj =
     (case t of
        GoDeployment \<Rightarrow> obj\<lparr>Strategy_Type := ''Recreate''\<rparr>
      | GoDeploymentConfig \<Rightarrow> obj\<lparr>Strategy_Type := ''Recreate''\<rparr>
      | GoStatefulSet \<Rightarrow>
          if withClaims \<and> Volumes_option opt \<noteq> ''configMap''
          then obj\<lparr>VolumeClaimTemplates := map (\<lambda>c. c\<lparr>meta_Group := [], meta_Version := [], meta_Kind := []\<rparr>) pvc\<rparr>
          else obj
      | _ \<Rightarrow> obj)"

text \<open>
  The loop over the objects: \<open>done\<close> are the objects already visited. An error of
  \<open>UpdateController\<close> ends the pass and leaves the rest of the list unvisited.
\<close>

fun updateLoop ::
  "collaborators \<Rightarrow> bool \<Rightarrow> ServiceConfig \<Rightarrow> ConvertOptions \<Rightarrow> PersistentVolumeClaim list \<Rightarrow>
   object list \<Rightarrow> object list \<Rightarrow> string option \<times> object list" where
  "updateLoop K withClaims service opt pvc done [] = (None, done)"
| "updateLoop K withClaims service opt pvc done (obj # rest) =
     (case UpdateController K obj of
        (Some err, obj1) \<Rightarrow> (Some (Wrap err ''k.UpdateController failed''), done @ obj1 # rest)
      | (None, obj1) \<Rightarrow>
          updateLoop K withClaims service opt pvc
            (done @ [if length (Volumes service) > 0
                     then volumeStrategy withClaims opt pvc (GoType obj) obj1 else obj1])
            rest)"

text \<open>What one iteration of the loop makes of an object it visits without an error.\<close>

definition afterVisit ::
  "collaborators \<Rightarrow> bool \<Rightarrow> ServiceConfig \<Rightarrow> ConvertOptions \<Rightarrow> PersistentVolumeClaim list \<Rightarrow>
   object \<Rightarrow> object" where
  "afterVisit K withClaims service opt pvc obj =
     (if length (Volumes service) > 0
      then volumeStrategy withClaims opt pvc (GoType obj) (snd (UpdateController K obj))
      else snd (UpdateController K obj))"

definition UpdateKubernetesObjectsMultipleContainers ::
  "collaborators \<Rightarrow> string \<Rightarrow> ServiceConfig \<Rightarrow> object list \<Rightarrow> ConvertOptions \<Rightarrow>
   string option \<times> object list" where
  "UpdateKubernetesObjectsMultipleContainers K nm service objects opt =
     updateLoop K False service opt [] [] objects"

definition UpdateKubernetesObjects ::
  "collaborators \<Rightarrow> string \<Rightarrow> ServiceConfig \<Rightarrow> ConvertOptions \<Rightarrow> object list \<Rightarrow>
   string option \<times> object list" where
  "UpdateKubernetesObjects K nm service opt objects =
     (case ConfigEnvs K of
        Some err \<Rightarrow> (Some (Wrap err ''Unable to load env variables''), objects)
      | None \<Rightarrow>
          (case ConfigVolumes K of
             Inl err \<Rightarrow> (Some (Wrap err ''k.ConfigVolumes failed''), objects)
           | Inr (pvc, cms) \<Rightarrow>
               let objects1 = (if pvc \<noteq> [] \<and> Controller opt \<noteq> StatefulStateController K
                               then objects @ map (asObject GoPersistentVolumeClaim) pvc
                               else objects);
                   objects2 = objects1 @ map (asObject GoConfigMap) cms
               in updateLoop K True service opt pvc [] objects2))"

section \<open>NetworkModeMerger\<close>

definition NetworkModeService :: string where
  "NetworkModeService = ''service:''"

record DeploymentMapping =
  SourceDeploymentName :: string
  TargetDeploymentName :: string

text \<open>
  \<open>searchNetworkModeToService\<close> ranges over a Go map: the list of services is the map's
  values in the order of that iteration, which the runtime chooses.
\<close>

fun searchNetworkModeToService_loop ::
  "ServiceConfig list \<Rightarrow> DeploymentMapping list \<Rightarrow> DeploymentMapping list" where
  "searchNetworkModeToService_loop [] deploymentMappings = deploymentMappings"
| "searchNetworkModeToService_loop (service # services) deploymentMappings =
     (if \<not> Contains (NetworkMode service) NetworkModeService
      then searchNetworkModeToService_loop services deploymentMappings
      else (let splitted = Split (NetworkMode service) CHR '':'' in
              if length splitted < 2
              then searchNetworkModeToService_loop services deploymentMappings
              else searchNetworkModeToService_loop services
                     (deploymentMappings @
                        [\<lparr>SourceDeploymentName = Name service,
                          TargetDeploymentName = splitted ! 1\<rparr>])))"

definition searchNetworkModeToService :: "ServiceConfig list \<Rightarrow> DeploymentMapping list" where
  "searchNetworkModeToService services = searchNetworkModeToService_loop services []"

definition isDeploymentNamed :: "string \<Rightarrow> object \<Rightarrow> bool" where
  "isDeploymentNamed nm obj = (GoType obj = GoDeployment \<and> ObjectMeta_Name obj = nm)"

definition addContainersToTargetDeployment ::
  "object list \<Rightarrow> Container list \<Rightarrow> string \<Rightarrow> object list" where
  "addContainersToTargetDeployment objects containersToAppend nameDeploymentToTransfer =
     map (\<lambda>obj. if isDeploymentNamed nameDeploymentToTransfer obj
                 then obj\<lparr>Template_Containers := Template_Containers obj @ containersToAppend\<rparr>
                 else obj)
         objects"

text \<open>
  The outer loop visits the slots in order and reads each object when it reaches it, so
  it sees the containers earlier iterations have appended.
\<close>

definition addContainersFromSourceToTargetDeployment ::
  "object list \<Rightarrow> DeploymentMapping \<Rightarrow> object list" where
  "addContainersFromSourceToTargetDeployment objects currentDeploymentMap =
     fold (\<lambda>i objs.
             if isDeploymentNamed (SourceDeploymentName currentDeploymentMap) (objs ! i)
             then addContainersToTargetDeployment objs (Template_Containers (objs ! i))
                    (TargetDeploymentName currentDeploymentMap)
             else objs)
          [0 ..< length objects] objects"

definition mergeContainersIntoDestinationDeployment ::
  "DeploymentMapping list \<Rightarrow> object list \<Rightarrow> object list" where
  "mergeContainersIntoDestinationDeployment deploymentMappings objects =
     fold (\<lambda>currentDeploymentMap objs.
             addContainersFromSourceToTargetDeployment objs currentDeploymentMap)
          deploymentMappings objects"

text \<open>\<open>reflect.DeepEqual\<close> on two objects is equality of their values.\<close>

fun removeFromSlice :: "object list \<Rightarrow> object \<Rightarrow> object list" where
  "removeFromSlice [] objectToRemove = []"
| "removeFromSlice (currentObject # objects) objectToRemove =
     (if currentObject = objectToRemove then objects
      else currentObject # removeFromSlice objects objectToRemove)"

text \<open>
  The loop \<open>for i := len(*objects) - 1; i >= 0; i--\<close>: the first argument is \<open>i + 1\<close>. The
  list shrinks while the loop runs, so the read of \<open>(*objects)[i]\<close> is checked.
\<close>

fun removeTargetDeployment_loop :: "nat \<Rightarrow> object list \<Rightarrow> string \<Rightarrow> panic + object list" where
  "removeTargetDeployment_loop 0 objects targetDeploymentName = Inr objects"
| "removeTargetDeployment_loop (Suc i) objects targetDeploymentName =
     (if i < length objects
      then (if isDeploymentNamed targetDeploymentName (objects ! i)
            then removeTargetDeployment_loop i (removeFromSlice objects (objects ! i))
                   targetDeploymentName
            else removeTargetDeployment_loop i objects targetDeploymentName)
      else Inl IndexOutOfRange)"

definition removeTargetDeployment :: "object list \<Rightarrow> string \<Rightarrow> panic + object list" where
  "removeTargetDeployment objects targetDeploymentName =
     removeTargetDeployment_loop (length objects) objects targetDeploymentName"

fun removeDeploymentTransfered :: "DeploymentMapping list \<Rightarrow> object list \<Rightarrow> panic + object list" where
  "removeDeploymentTransfered [] objects = Inr objects"
| "removeDeploymentTransfered (currentDeploymentMap # deploymentMappings) objects =
     (case removeTargetDeployment objects (SourceDeploymentName currentDeploymentMap) of
        Inl e \<Rightarrow> Inl e
      | Inr objects1 \<Rightarrow> removeDeploymentTransfered deploymentMappings objects1)"

definition fixNetworkModeToService :: "object list \<Rightarrow> ServiceConfig list \<Rightarrow> panic + object list" where
  "fixNetworkModeToService objects services =
     (let deploymentMappings = searchNetworkModeToService services in
        if length deploymentMappings = 0 then Inr objects
        else removeDeploymentTransfered deploymentMappings
               (mergeContainersIntoDestinationDeployment deploymentMappings objects))"

text \<open>
  How the object list may change while containers are merged: no slot is added or
  removed, every object keeps its Go type and name, and a container list only grows at
  its end.
\<close>

definition appendsOnly :: "object list \<Rightarrow> object list \<Rightarrow> bool" where
  "appendsOnly objects objects' =
     (length objects' = length objects \<and>
      list_all (\<lambda>i. GoType (objects' ! i) = GoType (objects ! i) \<and>
                     ObjectMeta_Name (objects' ! i) = ObjectMeta_Name (objects ! i) \<and>
                     prefix (Template_Containers (objects ! i)) (Template_Containers (objects' ! i)))
               [0 ..< length objects])"

text \<open>The effect of appending containers on one object of the list.\<close>

definition appended :: "string \<Rightarrow> Container list \<Rightarrow> object \<Rightarrow> object" where
  "appended n cs obj =
     (if isDeploymentNamed n obj
      then obj\<lparr>Template_Containers := Template_Containers obj @ cs\<rparr> else obj)"

section \<open>Example inputs\<close>

definition example_volumes :: "Volume list" where
  "example_volumes =
     [\<lparr>Volume_Name = ''data'', VolumeSource = ''claim:data''\<rparr>,
      \<lparr>Volume_Name = ''cfg'', VolumeSource = ''configMap:cfg''\<rparr>,
      \<lparr>Volume_Name = ''data'', VolumeSource = ''emptyDir''\<rparr>]"

definition example_volumeMounts :: "VolumeMount list" where
  "example_volumeMounts =
     [\<lparr>VolumeMount_Name = ''data'', MountPath = ''/data'', VolumeMount_ReadOnly = False\<rparr>,
      \<lparr>VolumeMount_Name = ''cfg'', MountPath = ''/etc/cfg'', VolumeMount_ReadOnly = True\<rparr>]"

definition example_podSpec :: PodSpec where
  "example_podSpec =
     \<lparr>Containers =
        [\<lparr>Container_Name = ''web'', Image = ''nginx'',
          VolumeMounts = [\<lparr>VolumeMount_Name = ''old'', MountPath = ''/data'', VolumeMount_ReadOnly = True\<rparr>],
          Container_SecurityContext = None\<rparr>,
         \<lparr>Container_Name = ''cache'', Image = ''redis'', VolumeMounts = [],
          Container_SecurityContext = None\<rparr>],
      Volumes_of = [\<lparr>Volume_Name = ''cfg'', VolumeSource = ''configMap:old''\<rparr>],
      Pod_SecurityContext = None\<rparr>"

text \<open>An iteration order for each container: the second one is not the order of the list.\<close>

definition example_mount_orders :: "nat \<Rightarrow> string list" where
  "example_mount_orders i = (if i = 0 then [''/etc/cfg''] else [''/etc/cfg'', ''/data''])"

definition example_service :: ServiceConfig where
  "example_service =
     \<lparr>Name = ''web'', Labels = Map.empty, NetworkMode = [], Volumes = [''data:/data''],
      User = ''1000:staff'', Pid = [], GroupAdd = None, FsGroup = 0, Privileged = False,
      ReadOnly = False, Replicas = 1\<rparr>"

definition example_deployment :: "string \<Rightarrow> Container list \<Rightarrow> object" where
  "example_deployment nm cs =
     \<lparr>GoType = GoDeployment, Group = ''apps'', Version = ''v1'', Kind = ''Deployment'',
      ObjectMeta_Namespace = [], ObjectMeta_Name = nm, Template_Containers = cs,
      Strategy_Type = [], VolumeClaimTemplates = [], Other_Fields = []\<rparr>"

definition example_container :: "string \<Rightarrow> Container" where
  "example_container nm =
     \<lparr>Container_Name = nm, Image = nm, VolumeMounts = [], Container_SecurityContext = None\<rparr>"

definition example_collaborators :: collaborators where
  "example_collaborators =
     \<lparr>UpdateController = (\<lambda>obj. (None, obj)), ConfigEnvs = None,
      ConfigVolumes =
        Inr ([\<lparr>meta_Group = [], meta_Version = ''v1'', meta_Kind = ''PersistentVolumeClaim'',
                meta_Namespace = [], meta_Name = ''data'', meta_Other = []\<rparr>], []),
      StatefulStateController = ''statefulset''\<rparr>"

definition example_options :: ConvertOptions where
  "example_options = \<lparr>Controller = ''deployment'', Volumes_option = ''persistentVolumeClaim''\<rparr>"

definition example_objects :: "object list" where
  "example_objects =
     [example_deployment ''web'' [example_container ''web''],
      \<lparr>GoType = GoService, Group = [], Version = ''v1'', Kind = ''Service'',
       ObjectMeta_Namespace = [], ObjectMeta_Name = ''web'', Template_Containers = [],
       Strategy_Type = [], VolumeClaimTemplates = [], Other_Fields = []\<rparr>]"

text \<open>A chain: \<open>a\<close> joins the network of \<open>b\<close>, and \<open>b\<close> joins the network of \<open>c\<close>.\<close>

definition chain_services :: "ServiceConfig list" where
  "chain_services =
     [example_service\<lparr>Name := ''a'', NetworkMode := ''service:b''\<rparr>,
      example_service\<lparr>Name := ''b'', NetworkMode := ''service:c''\<rparr>,
      example_service\<lparr>Name := ''c'', NetworkMode := []\<rparr>]"

definition chain_objects :: "object list" where
  "chain_objects =
     [example_deployment ''a'' [example_container ''a''],
      example_deployment ''b'' [example_container ''b''],
      example_deployment ''c'' [example_container ''c'']]"

text \<open>The scenario of the specification: \<open>cache\<close> joins the network of \<open>web\<close>.\<close>

definition join_services :: "ServiceConfig list" where
  "join_services =
     [example_service\<lparr>Name := ''cache'', NetworkMode := ''service:web''\<rparr>,
      example_service\<lparr>Name := ''web'', NetworkMode := []\<rparr>]"

definition join_objects :: "object list" where
  "join_objects =
     [example_deployment ''cache'' [example_container ''cache''],
      example_objects ! 1,
      example_deployment ''web'' [example_container ''web'']]"

text \<open>The condition on \<open>UpdateController\<close> that the frame property of the pass rests on:
  it changes neither the Go type nor the update strategy of the object it is given.\<close>

definition UpdateController_frame :: "collaborators \<Rightarrow> bool" where
  "UpdateController_frame K =
     (\<forall>obj. GoType (snd (UpdateController K obj)) = GoType obj \<and>
            Strategy_Type (snd (UpdateController K obj)) = Strategy_Type obj)"

section \<open>Verified properties\<close>

subsection \<open>Sorting\<close>

lemma SortServicesFirst_loop_filter:
  "SortServicesFirst_loop objs svc others =
     (svc @ filter (\<lambda>obj. Kind obj = ''Service'') objs,
      others @ filter (\<lambda>obj. Kind obj \<noteq> ''Service'') objs)"
  by (induction objs arbitrary: svc others) simp_all

lemma SortServicesFirst_filter:
  "SortServicesFirst objs =
     filter (\<lambda>obj. Kind obj = ''Service'') objs @ filter (\<lambda>obj. Kind obj \<noteq> ''Service'') objs"
  by (simp add: SortServicesFirst_def SortServicesFirst_loop_filter)

text \<open>
  C6. For every object list \<open>L\<close>, \<open>SortServicesFirst\<close> returns the objects of kind
  \<open>Service\<close> in their order in \<open>L\<close>, followed by all the other objects in their order in
  \<open>L\<close>: a stable partition, which is a rearrangement of \<open>L\<close>. Sorting a sorted list changes
  nothing.
\<close>

theorem SortServicesFirst_stable_partition:
  "(\<exists>svc others.
      SortServicesFirst L = svc @ others \<and>
      svc = filter (\<lambda>obj. Kind obj = ''Service'') L \<and>
      others = filter (\<lambda>obj. Kind obj \<noteq> ''Service'') L \<and>
      list_all (\<lambda>obj. Kind obj = ''Service'') svc \<and>
      list_all (\<lambda>obj. Kind obj \<noteq> ''Service'') others) \<and>
   mset (SortServicesFirst L) = mset L \<and>
   SortServicesFirst (SortServicesFirst L) = SortServicesFirst L"
proof -
  have "mset (filter (\<lambda>obj. Kind obj = ''Service'') L @ filter (\<lambda>obj. Kind obj \<noteq> ''Service'') L)
          = mset L"
    by (induction L) simp_all
  then show ?thesis
    by (simp add: SortServicesFirst_filter list_all_iff)
qed

subsection \<open>Autoscaler\<close>

lemma validatePercentageMetric_range:
  "1 \<le> d \<Longrightarrow> d \<le> 100 \<Longrightarrow>
   1 \<le> validatePercentageMetric s l d \<and> validatePercentageMetric s l d \<le> 100"
  by (simp add: validatePercentageMetric_def Let_def)

text \<open>
  C9. For every service (and whatever the label keys are), the autoscaler built by
  \<open>createHPAResources\<close> has exactly two metrics, CPU first and memory second, whose
  targets are the validated utilization values, both between 1 and 100: neither guard
  of \<open>getHpaMetricSpec\<close> excludes its metric.
\<close>

theorem createHPAResources_two_metrics:
  "\<exists>c m. Metrics (fst (createHPAResources keys nm service)) =
            [resourceMetric ''cpu'' c, resourceMetric ''memory'' m] \<and>
         1 \<le> c \<and> c \<le> 100 \<and> 1 \<le> m \<and> m \<le> 100 \<and>
         c = CPUtilization (getResourceHpaValues keys service) \<and>
         m = MemoryUtilization (getResourceHpaValues keys service)"
proof -
  let ?v = "getResourceHpaValues keys service"
  have c: "1 \<le> CPUtilization ?v \<and> CPUtilization ?v \<le> 100"
    using validatePercentageMetric_range [of DefaultCPUUtilization service "LabelHpaCPU keys"]
    by (simp add: getResourceHpaValues_def Let_def DefaultCPUUtilization_def)
  have m: "1 \<le> MemoryUtilization ?v \<and> MemoryUtilization ?v \<le> 100"
    using validatePercentageMetric_range [of DefaultMemoryUtilization service "LabelHpaMemory keys"]
    by (simp add: getResourceHpaValues_def Let_def DefaultMemoryUtilization_def)
  from c m show ?thesis
    by (simp add: createHPAResources_def getHpaMetricSpec_def Let_def)
qed

subsection \<open>Env artifact names\<close>

lemma all_dropWhile: "(\<forall>x\<in>set (dropWhile P s). P x) \<longleftrightarrow> (\<forall>x\<in>set s. P x)"
proof
  assume a: "\<forall>x\<in>set (dropWhile P s). P x"
  have "dropWhile P s = []"
  proof (rule ccontr)
    assume n: "dropWhile P s \<noteq> []"
    then have "\<not> P (hd (dropWhile P s))" by (rule hd_dropWhile)
    moreover from n have "hd (dropWhile P s) \<in> set (dropWhile P s)" by simp
    ultimately show False using a by blast
  qed
  then show "\<forall>x\<in>set s. P x" by (simp add: dropWhile_eq_Nil_conv)
next
  assume "\<forall>x\<in>set s. P x"
  then show "\<forall>x\<in>set (dropWhile P s). P x" by (meson set_dropWhileD)
qed

lemma Trim_empty: "Trim s C = [] \<longleftrightarrow> set s \<subseteq> C"
proof -
  have "Trim s C = [] \<longleftrightarrow> (\<forall>x\<in>set (dropWhile (\<lambda>c. c \<in> C) s). x \<in> C)"
    by (simp add: Trim_def dropWhile_eq_Nil_conv)
  also have "\<dots> \<longleftrightarrow> (\<forall>x\<in>set s. x \<in> C)" by (rule all_dropWhile)
  finally show ?thesis by blast
qed

lemma replaceNonAlnum_empty: "replaceNonAlnum s = [] \<longleftrightarrow> s = []"
  by (cases s) simp_all

text \<open>
  C10. \<open>getUsableNameEnvFile\<close> reads \<open>envName[0]\<close> unguarded: on the empty name it panics
  with an index out of range. \<open>FormatEnvName\<close> reaches that panic exactly for the raw names
  made of dots and slashes only, which trim to the empty string. On every non-empty name
  \<open>getUsableNameEnvFile\<close> returns a non-empty name of at most 63 bytes.
\<close>

theorem getUsableNameEnvFile_panics_on_empty:
  "getUsableNameEnvFile [] serviceName = Inl IndexOutOfRange \<and>
   (\<forall>nm. FormatEnvName nm serviceName = Inl IndexOutOfRange \<longleftrightarrow> set nm \<subseteq> {CHR ''.'', CHR ''/''}) \<and>
   (\<forall>envName. envName \<noteq> [] \<longrightarrow>
      (\<exists>r. getUsableNameEnvFile envName serviceName = Inr r \<and> r \<noteq> [] \<and> length r \<le> 63))"
proof (intro conjI allI impI)
  show "getUsableNameEnvFile [] serviceName = Inl IndexOutOfRange"
    by (simp add: getUsableNameEnvFile_def)
next
  fix nm
  have "FormatEnvName nm serviceName = Inl IndexOutOfRange
          \<longleftrightarrow> replaceNonAlnum (Trim nm (set ''./'')) = []"
    by (simp add: FormatEnvName_def getUsableNameEnvFile_def Let_def split: list.splits)
  then show "FormatEnvName nm serviceName = Inl IndexOutOfRange \<longleftrightarrow> set nm \<subseteq> {CHR ''.'', CHR ''/''}"
    by (simp add: replaceNonAlnum_empty Trim_empty)
next
  fix envName :: string
  assume "envName \<noteq> []"
  then obtain c cs where e: "envName = c # cs" by (cases envName) auto
  show "\<exists>r. getUsableNameEnvFile envName serviceName = Inr r \<and> r \<noteq> [] \<and> length r \<le> 63"
    unfolding e by (simp add: getUsableNameEnvFile_def Let_def)
qed

theorem getUsableNameEnvFile_witness:
  "set ''./'' \<subseteq> {CHR ''.'', CHR ''/''} \<and> FormatEnvName ''./'' ''web'' = Inl IndexOutOfRange \<and>
   ''-env'' \<noteq> [] \<and>
   (\<exists>r. getUsableNameEnvFile ''-env'' ''web'' = Inr r \<and> r \<noteq> [] \<and> length r \<le> 63)"
proof -
  note t = getUsableNameEnvFile_panics_on_empty [of "''web''"]
  have a: "set ''./'' \<subseteq> {CHR ''.'', CHR ''/''}" by simp
  have b: "''-env'' \<noteq> []" by simp
  from t a have "FormatEnvName ''./'' ''web'' = Inl IndexOutOfRange" by blast
  moreover from t b have "\<exists>r. getUsableNameEnvFile ''-env'' ''web'' = Inr r \<and> r \<noteq> [] \<and> length r \<le> 63"
    by blast
  ultimately show ?thesis using a b by blast
qed

subsection \<open>Probes\<close>

text \<open>
  C2. \<open>configProbe\<close> returns no probe for the blank health check and for a disabled one.
  For any other check it returns a probe with exactly one handler: the command if there
  is one (whatever the HTTP and TCP fields hold), else HTTP-get if path and port are both
  set, else TCP-socket if the TCP port is set; and it panics if none of the three is set.
\<close>

theorem configProbe_precedence:
  "(hc = HealthCheck_zero \<or> Disable hc \<longrightarrow> configProbe hc = Inr None) \<and>
   (hc \<noteq> HealthCheck_zero \<and> \<not> Disable hc \<longrightarrow>
      (0 < len (Test hc) \<longrightarrow>
         (\<exists>p. configProbe hc = Inr (Some p) \<and> Exec p = Some (Test hc) \<and>
              HTTPGet p = None \<and> TCPSocket p = None \<and> handlers p = 1)) \<and>
      (len (Test hc) = 0 \<and> HTTPPath hc \<noteq> [] \<and> HTTPPort hc \<noteq> 0 \<longrightarrow>
         (\<exists>p. configProbe hc = Inr (Some p) \<and> Exec p = None \<and>
              HTTPGet p = Some (HTTPPath hc, HTTPPort hc) \<and> TCPSocket p = None \<and>
              handlers p = 1)) \<and>
      (len (Test hc) = 0 \<and> \<not> (HTTPPath hc \<noteq> [] \<and> HTTPPort hc \<noteq> 0) \<and> TCPPort hc \<noteq> 0 \<longrightarrow>
         (\<exists>p. configProbe hc = Inr (Some p) \<and> Exec p = None \<and> HTTPGet p = None \<and>
              TCPSocket p = Some (TCPPort hc) \<and> handlers p = 1)) \<and>
      (len (Test hc) = 0 \<and> \<not> (HTTPPath hc \<noteq> [] \<and> HTTPPort hc \<noteq> 0) \<and> TCPPort hc = 0 \<longrightarrow>
         configProbe hc = Inl (Panic ''Health check must contain a command'')))"
  by (auto simp: configProbe_def Probe_zero_def handlers_def Let_def)

theorem configProbe_precedence_witness:
  "\<lparr>Test = Some [''curl'', ''-f'', ''http://localhost''], Timeout = 5, Interval = 10, Retries = 3,
     StartPeriod = 0, Disable = False, HTTPPath = ''/healthz'', HTTPPort = 8080,
     TCPPort = 0\<rparr> \<noteq> HealthCheck_zero \<and>
   (\<exists>p. configProbe \<lparr>Test = Some [''curl'', ''-f'', ''http://localhost''], Timeout = 5,
                       Interval = 10, Retries = 3, StartPeriod = 0, Disable = False,
                       HTTPPath = ''/healthz'', HTTPPort = 8080, TCPPort = 0\<rparr> = Inr (Some p) \<and>
        Exec p = Some (Some [''curl'', ''-f'', ''http://localhost'']) \<and>
        HTTPGet p = None \<and> TCPSocket p = None \<and> handlers p = 1) \<and>
   configProbe HealthCheck_zero = Inr None \<and>
   \<lparr>Test = Some [], Timeout = 0, Interval = 0, Retries = 0, StartPeriod = 0, Disable = False,
     HTTPPath = ''/healthz'', HTTPPort = 0, TCPPort = 0\<rparr> \<noteq> HealthCheck_zero \<and>
   configProbe \<lparr>Test = Some [], Timeout = 0, Interval = 0, Retries = 0, StartPeriod = 0,
                 Disable = False, HTTPPath = ''/healthz'', HTTPPort = 0, TCPPort = 0\<rparr>
     = Inl (Panic ''Health check must contain a command'')"
  using configProbe_precedence
          [of "\<lparr>Test = Some [''curl'', ''-f'', ''http://localhost''], Timeout = 5, Interval = 10,
                 Retries = 3, StartPeriod = 0, Disable = False, HTTPPath = ''/healthz'',
                 HTTPPort = 8080, TCPPort = 0\<rparr>"]
        configProbe_precedence [of HealthCheck_zero]
        configProbe_precedence
          [of "\<lparr>Test = Some [], Timeout = 0, Interval = 0, Retries = 0, StartPeriod = 0,
                 Disable = False, HTTPPath = ''/healthz'', HTTPPort = 0, TCPPort = 0\<rparr>"]
  by (simp add: HealthCheck_zero_def len_def)

subsection \<open>Autoscaler values\<close>

text \<open>
  What holds of the values: a label that does not parse or is negative gives the default,
  a label in the 32-bit range is taken as it is, and the maximum is never below the
  minimum.
\<close>

lemma getHpaValue_in_int32:
  "Atoi (label (Labels s) l) = Some v \<Longrightarrow> 0 \<le> v \<Longrightarrow> v < 2 ^ 31 \<Longrightarrow> getHpaValue s l d = v"
  by (simp add: getHpaValue_def int32_def)

lemma getHpaValue_default:
  "Atoi (label (Labels s) l) = None \<or> (\<exists>v<0. Atoi (label (Labels s) l) = Some v) \<Longrightarrow>
   getHpaValue s l d = d"
  by (auto simp: getHpaValue_def)

lemma getResourceHpaValues_max_ge_min:
  "MinReplicas (getResourceHpaValues keys s) \<le> MaxReplicas (getResourceHpaValues keys s)"
  by (simp add: getResourceHpaValues_def Let_def)

lemma getResourceHpaValues_examples:
  "getResourceHpaValues
     \<lparr>LabelHpaMinReplicas = ''kompose.hpa.replicas.min'',
      LabelHpaMaxReplicas = ''kompose.hpa.replicas.max'',
      LabelHpaCPU = ''kompose.hpa.cpu'', LabelHpaMemory = ''kompose.hpa.memory''\<rparr>
     (example_service\<lparr>Labels := [''kompose.hpa.replicas.min'' \<mapsto> ''5'',
                                  ''kompose.hpa.replicas.max'' \<mapsto> ''2'',
                                  ''kompose.hpa.cpu'' \<mapsto> ''150'',
                                  ''kompose.hpa.memory'' \<mapsto> ''-3'']\<rparr>)
   = \<lparr>MinReplicas = 5, MaxReplicas = 5, CPUtilization = 50, MemoryUtilization = 70\<rparr>"
  by (simp add: getResourceHpaValues_def validatePercentageMetric_def getHpaValue_def
        Atoi_def ParseInt_def isDigit_def digitVal_def int32_def label_def Let_def
        DefaultMinReplicas_def DefaultMaxReplicas_def DefaultCPUUtilization_def
        DefaultMemoryUtilization_def example_service_def)

text \<open>
  C3. With the label \<open>kompose.hpa.cpu\<close> set to 4294967356 (a value outside 1..100, which
  \<open>strconv.Atoi\<close> accepts where \<open>int\<close> has 64 bits), \<open>getHpaValue\<close> keeps the low 32 bits,
  60, and \<open>validatePercentageMetric\<close> lets it through: the CPU utilization is 60 and not
  the default 50.
\<close>

theorem getResourceHpaValues_truncates_label:
  "getResourceHpaValues
     \<lparr>LabelHpaMinReplicas = ''kompose.hpa.replicas.min'',
      LabelHpaMaxReplicas = ''kompose.hpa.replicas.max'',
      LabelHpaCPU = ''kompose.hpa.cpu'', LabelHpaMemory = ''kompose.hpa.memory''\<rparr>
     (example_service\<lparr>Labels := [''kompose.hpa.cpu'' \<mapsto> ''4294967356'']\<rparr>)
   = \<lparr>MinReplicas = 1, MaxReplicas = 3, CPUtilization = 60, MemoryUtilization = 70\<rparr>"
  by (simp add: getResourceHpaValues_def validatePercentageMetric_def getHpaValue_def
        Atoi_def ParseInt_def isDigit_def digitVal_def int32_def label_def Let_def
        DefaultMinReplicas_def DefaultMaxReplicas_def DefaultCPUUtilization_def
        DefaultMemoryUtilization_def example_service_def)

subsection \<open>Deduplication\<close>

text \<open>
  What holds of the result: no two objects with metadata have the same key string (so no
  two have the same kind, namespace and name), and a second run changes nothing.
\<close>

lemma RemoveDupObjects_loop_acc:
  "RemoveDupObjects_loop objs result exist = result @ RemoveDupObjects_loop objs [] exist"
proof (induction objs arbitrary: result exist)
  case Nil
  then show ?case by simp
next
  case (Cons obj objs)
  note IH = Cons.IH
  show ?case
    using IH [of "result @ [obj]"] IH [of "[obj]"] IH [of result]
    by simp
qed

lemma RemoveDupObjects_loop_keys:
  "distinct (map dupKey (filter implementsMetaObject (RemoveDupObjects_loop objs [] exist))) \<and>
   dupKey ` set (filter implementsMetaObject (RemoveDupObjects_loop objs [] exist)) \<inter> exist = {}"
proof (induction objs arbitrary: exist)
  case Nil
  then show ?case by simp
next
  case (Cons obj objs)
  note a = RemoveDupObjects_loop_acc [of objs "[obj]"]
  show ?case
  proof (cases "implementsMetaObject obj")
    case False
    with Cons.IH [of exist] show ?thesis by (simp add: a)
  next
    case True
    show ?thesis
    proof (cases "dupKey obj \<in> exist")
      case True
      with \<open>implementsMetaObject obj\<close> Cons.IH [of exist] show ?thesis by simp
    next
      case False
      with \<open>implementsMetaObject obj\<close> Cons.IH [of "insert (dupKey obj) exist"] show ?thesis
        by (auto simp: a)
    qed
  qed
qed

lemma RemoveDupObjects_distinct_keys:
  "distinct (map dupKey (filter implementsMetaObject (RemoveDupObjects objs)))"
  using RemoveDupObjects_loop_keys [of objs "{}"] by (simp add: RemoveDupObjects_def)

lemma RemoveDupObjects_loop_again:
  "exist' \<subseteq> exist \<Longrightarrow>
   RemoveDupObjects_loop (RemoveDupObjects_loop objs [] exist) [] exist' =
     RemoveDupObjects_loop objs [] exist"
proof (induction objs arbitrary: exist exist')
  case Nil
  then show ?case by simp
next
  case (Cons obj objs)
  note a = RemoveDupObjects_loop_acc [of _ "[obj]"]
  show ?case
  proof (cases "implementsMetaObject obj")
    case False
    with Cons.IH [OF Cons.prems] show ?thesis by (simp add: a)
  next
    case True
    show ?thesis
    proof (cases "dupKey obj \<in> exist")
      case True
      with \<open>implementsMetaObject obj\<close> Cons.IH [OF Cons.prems] show ?thesis by simp
    next
      case False
      with Cons.prems have n: "dupKey obj \<notin> exist'" by blast
      from Cons.prems have "insert (dupKey obj) exist' \<subseteq> insert (dupKey obj) exist" by blast
      from Cons.IH [OF this] False n \<open>implementsMetaObject obj\<close> show ?thesis by (simp add: a)
    qed
  qed
qed

lemma RemoveDupObjects_idempotent:
  "RemoveDupObjects (RemoveDupObjects objs) = RemoveDupObjects objs"
  by (simp add: RemoveDupObjects_def RemoveDupObjects_loop_again)

text \<open>
  C5. Two ConfigMaps whose namespaces and names differ (\<open>dev\<close>, \<open>opsweb\<close> and \<open>devops\<close>, \<open>web\<close>)
  have the same concatenated key, and \<open>RemoveDupObjects\<close> drops the second although no
  earlier object has its kind, namespace and name.
\<close>

theorem RemoveDupObjects_drops_distinct_object:
  "RemoveDupObjects
     [\<lparr>GoType = GoConfigMap, Group = [], Version = ''v1'', Kind = ''ConfigMap'',
       ObjectMeta_Namespace = ''dev'', ObjectMeta_Name = ''opsweb'', Template_Containers = [],
       Strategy_Type = [], VolumeClaimTemplates = [], Other_Fields = []\<rparr>,
      \<lparr>GoType = GoConfigMap, Group = [], Version = ''v1'', Kind = ''ConfigMap'',
       ObjectMeta_Namespace = ''devops'', ObjectMeta_Name = ''web'', Template_Containers = [],
       Strategy_Type = [], VolumeClaimTemplates = [], Other_Fields = []\<rparr>]
   = [\<lparr>GoType = GoConfigMap, Group = [], Version = ''v1'', Kind = ''ConfigMap'',
       ObjectMeta_Namespace = ''dev'', ObjectMeta_Name = ''opsweb'', Template_Containers = [],
       Strategy_Type = [], VolumeClaimTemplates = [], Other_Fields = []\<rparr>]"
  by (simp add: RemoveDupObjects_def implementsMetaObject_def dupKey_def
        GroupVersionKind_String_def)

subsection \<open>Volumes and volume mounts\<close>

lemma find_key:
  "k \<in> set (map f xs) \<Longrightarrow> \<exists>x. find (\<lambda>x. f x = k) xs = Some x \<and> f x = k"
  by (induction xs) auto

lemma appendFirst_keys:
  "k \<in> set (map f cands) \<Longrightarrow>
   set (map f (appendFirst (\<lambda>x. f x = k) cands xs)) = insert k (set (map f xs))"
  using find_key [of k f cands] by (auto simp: appendFirst_def)

lemma SetVolumes_Nil: "SetVolumes [] volumes ps = ps"
  by (simp add: SetVolumes_def)

lemma SetVolumes_names:
  "set ord \<subseteq> SetVolumeNames volumes \<Longrightarrow>
   SetVolumeNames (Volumes_of (SetVolumes ord volumes ps)) =
     SetVolumeNames (Volumes_of ps) \<union> set ord"
proof (induction ord arbitrary: ps)
  case Nil
  then show ?case by (simp add: SetVolumes_def)
next
  case (Cons n ord)
  let ?ps1 = "ps\<lparr>Volumes_of := appendFirst (\<lambda>volume. Volume_Name volume = n) volumes (Volumes_of ps)\<rparr>"
  from Cons.prems have n: "n \<in> set (map Volume_Name volumes)" and sub: "set ord \<subseteq> SetVolumeNames volumes"
    by (simp_all add: SetVolumeNames_def)
  have step: "SetVolumes (n # ord) volumes ps = SetVolumes ord volumes ?ps1"
    by (simp add: SetVolumes_def)
  have "SetVolumeNames (Volumes_of ?ps1) = insert n (SetVolumeNames (Volumes_of ps))"
    using appendFirst_keys [OF n] by (simp add: SetVolumeNames_def)
  with Cons.IH [OF sub, of ?ps1] step show ?case by simp
qed

lemma iteration_empty: "iteration {} ord \<longleftrightarrow> ord = []"
  by (auto simp: iteration_def)

lemma SetVolumes_union:
  assumes "SetVolumes_iteration volumes ps ord"
  shows "SetVolumeNames (Volumes_of (SetVolumes ord volumes ps)) =
           SetVolumeNames (Volumes_of ps) \<union> SetVolumeNames volumes"
proof -
  from assms have s: "set ord = SetVolumeNames volumes - SetVolumeNames (Volumes_of ps)"
    by (simp add: SetVolumes_iteration_def iteration_def)
  then have "set ord \<subseteq> SetVolumeNames volumes" by blast
  from SetVolumes_names [OF this, of ps] s show ?thesis by blast
qed

lemma SetVolumeMounts_container_Nil: "SetVolumeMounts_container [] vm c = c"
  by (simp add: SetVolumeMounts_container_def)

lemma SetVolumeMounts_container_paths:
  "set ord \<subseteq> SetVolumeMountPaths vm \<Longrightarrow>
   SetVolumeMountPaths (VolumeMounts (SetVolumeMounts_container ord vm c)) =
     SetVolumeMountPaths (VolumeMounts c) \<union> set ord"
proof (induction ord arbitrary: c)
  case Nil
  then show ?case by (simp add: SetVolumeMounts_container_def)
next
  case (Cons n ord)
  let ?c1 = "c\<lparr>VolumeMounts := appendFirst (\<lambda>m. MountPath m = n) vm (VolumeMounts c)\<rparr>"
  from Cons.prems have n: "n \<in> set (map MountPath vm)" and sub: "set ord \<subseteq> SetVolumeMountPaths vm"
    by (simp_all add: SetVolumeMountPaths_def)
  have step: "SetVolumeMounts_container (n # ord) vm c = SetVolumeMounts_container ord vm ?c1"
    by (simp add: SetVolumeMounts_container_def)
  have "SetVolumeMountPaths (VolumeMounts ?c1) = insert n (SetVolumeMountPaths (VolumeMounts c))"
    using appendFirst_keys [OF n] by (simp add: SetVolumeMountPaths_def)
  with Cons.IH [OF sub, of ?c1] step show ?case by simp
qed

lemma SetVolumeMounts_noop:
  assumes it: "SetVolumeMounts_iteration vm ps ords"
    and sub: "\<forall>c\<in>set (Containers ps). SetVolumeMountPaths vm \<subseteq> SetVolumeMountPaths (VolumeMounts c)"
  shows "SetVolumeMounts ords vm ps = ps"
proof -
  have "\<forall>i<length (Containers ps). ords i = []"
  proof (intro allI impI)
    fix i assume i: "i < length (Containers ps)"
    then have "Containers ps ! i \<in> set (Containers ps)" by simp
    with sub have d: "SetVolumeMountPaths vm - SetVolumeMountPaths (VolumeMounts (Containers ps ! i)) = {}"
      by blast
    from it i have "iteration (SetVolumeMountPaths vm -
        SetVolumeMountPaths (VolumeMounts (Containers ps ! i))) (ords i)"
      by (simp add: SetVolumeMounts_iteration_def list_all_iff)
    then have "iteration {} (ords i)" by (simp only: d)
    then show "ords i = []" by (simp only: iteration_empty)
  qed
  then have "map (\<lambda>i. SetVolumeMounts_container (ords i) vm (Containers ps ! i))
               [0 ..< length (Containers ps)] = map (\<lambda>i. Containers ps ! i) [0 ..< length (Containers ps)]"
    by (simp add: SetVolumeMounts_container_Nil)
  then show ?thesis by (simp add: SetVolumeMounts_def map_nth)
qed

lemma SetVolumeMounts_covers:
  assumes it: "SetVolumeMounts_iteration vm ps ords"
  shows "\<forall>c\<in>set (Containers (SetVolumeMounts ords vm ps)).
           SetVolumeMountPaths vm \<subseteq> SetVolumeMountPaths (VolumeMounts c)"
proof
  fix c assume "c \<in> set (Containers (SetVolumeMounts ords vm ps))"
  then obtain i where i: "i < length (Containers ps)"
    and c: "c = SetVolumeMounts_container (ords i) vm (Containers ps ! i)"
    by (auto simp: SetVolumeMounts_def)
  from it i have s: "set (ords i) = SetVolumeMountPaths vm -
        SetVolumeMountPaths (VolumeMounts (Containers ps ! i))"
    by (simp add: SetVolumeMounts_iteration_def list_all_iff iteration_def)
  then have "set (ords i) \<subseteq> SetVolumeMountPaths vm" by blast
  from SetVolumeMounts_container_paths [OF this, of "Containers ps ! i"] s c
  show "SetVolumeMountPaths vm \<subseteq> SetVolumeMountPaths (VolumeMounts c)" by blast
qed

lemma SetVolumes_added:
  "set ord \<subseteq> SetVolumeNames volumes \<Longrightarrow>
   \<exists>added. SetVolumes ord volumes ps = ps\<lparr>Volumes_of := Volumes_of ps @ added\<rparr> \<and>
           map Volume_Name added = ord \<and> set added \<subseteq> set volumes"
proof (induction ord arbitrary: ps)
  case Nil
  then show ?case by (simp add: SetVolumes_def)
next
  case (Cons n ord)
  from Cons.prems have n: "n \<in> set (map Volume_Name volumes)" and sub: "set ord \<subseteq> SetVolumeNames volumes"
    by (simp_all add: SetVolumeNames_def)
  from find_key [OF n] obtain v where v: "find (\<lambda>x. Volume_Name x = n) volumes = Some v"
    and vn: "Volume_Name v = n" by blast
  from v have vin: "v \<in> set volumes" by (auto simp: find_Some_iff)
  let ?ps1 = "ps\<lparr>Volumes_of := Volumes_of ps @ [v]\<rparr>"
  have step: "SetVolumes (n # ord) volumes ps = SetVolumes ord volumes ?ps1"
    by (simp add: SetVolumes_def appendFirst_def v)
  from Cons.IH [OF sub, of ?ps1] obtain added
    where a: "SetVolumes ord volumes ?ps1 = ?ps1\<lparr>Volumes_of := Volumes_of ?ps1 @ added\<rparr>"
      and b: "map Volume_Name added = ord" and c: "set added \<subseteq> set volumes" by blast
  have A: "SetVolumes (n # ord) volumes ps = ps\<lparr>Volumes_of := Volumes_of ps @ (v # added)\<rparr>"
    using step a by simp
  have B: "map Volume_Name (v # added) = n # ord" using b vn by simp
  have C: "set (v # added) \<subseteq> set volumes" using c vin by simp
  from A B C show ?case by (intro exI [of _ "v # added"] conjI)
qed

lemma SetVolumeMounts_container_added:
  "set ord \<subseteq> SetVolumeMountPaths vm \<Longrightarrow>
   \<exists>added. SetVolumeMounts_container ord vm c = c\<lparr>VolumeMounts := VolumeMounts c @ added\<rparr> \<and>
           map MountPath added = ord \<and> set added \<subseteq> set vm"
proof (induction ord arbitrary: c)
  case Nil
  then show ?case by (simp add: SetVolumeMounts_container_def)
next
  case (Cons n ord)
  from Cons.prems have n: "n \<in> set (map MountPath vm)" and sub: "set ord \<subseteq> SetVolumeMountPaths vm"
    by (simp_all add: SetVolumeMountPaths_def)
  from find_key [OF n] obtain v where v: "find (\<lambda>x. MountPath x = n) vm = Some v"
    and vn: "MountPath v = n" by blast
  from v have vin: "v \<in> set vm" by (auto simp: find_Some_iff)
  let ?c1 = "c\<lparr>VolumeMounts := VolumeMounts c @ [v]\<rparr>"
  have step: "SetVolumeMounts_container (n # ord) vm c = SetVolumeMounts_container ord vm ?c1"
    by (simp add: SetVolumeMounts_container_def appendFirst_def v)
  from Cons.IH [OF sub, of ?c1] obtain added
    where a: "SetVolumeMounts_container ord vm ?c1 = ?c1\<lparr>VolumeMounts := VolumeMounts ?c1 @ added\<rparr>"
      and b: "map MountPath added = ord" and c: "set added \<subseteq> set vm" by blast
  have A: "SetVolumeMounts_container (n # ord) vm c = c\<lparr>VolumeMounts := VolumeMounts c @ (v # added)\<rparr>"
    using step a by simp
  have B: "map MountPath (v # added) = n # ord" using b vn by simp
  have C: "set (v # added) \<subseteq> set vm" using c vin by simp
  from A B C show ?case by (intro exI [of _ "v # added"] conjI)
qed

lemma SetVolumes_iteration_added:
  assumes "SetVolumes_iteration volumes ps ord"
  shows "\<exists>added. SetVolumes ord volumes ps = ps\<lparr>Volumes_of := Volumes_of ps @ added\<rparr> \<and>
           map Volume_Name added = ord \<and> set added \<subseteq> set volumes"
proof -
  from assms have "set ord \<subseteq> SetVolumeNames volumes"
    by (auto simp: SetVolumes_iteration_def iteration_def)
  then show ?thesis by (rule SetVolumes_added)
qed

lemma SetVolumeMounts_iteration_added:
  assumes "SetVolumeMounts_iteration vm ps ords"
  shows "length (Containers (SetVolumeMounts ords vm ps)) = length (Containers ps) \<and>
         (\<forall>i<length (Containers ps).
            \<exists>added. Containers (SetVolumeMounts ords vm ps) ! i =
                      (Containers ps ! i)\<lparr>VolumeMounts := VolumeMounts (Containers ps ! i) @ added\<rparr> \<and>
                    map MountPath added = ords i \<and> set added \<subseteq> set vm)"
proof (intro conjI allI impI)
  show "length (Containers (SetVolumeMounts ords vm ps)) = length (Containers ps)"
    by (simp add: SetVolumeMounts_def)
next
  fix i assume i: "i < length (Containers ps)"
  with assms have "set (ords i) \<subseteq> SetVolumeMountPaths vm"
    by (auto simp: SetVolumeMounts_iteration_def iteration_def list_all_iff)
  from SetVolumeMounts_container_added [OF this, of "Containers ps ! i"] i
  show "\<exists>added. Containers (SetVolumeMounts ords vm ps) ! i =
                      (Containers ps ! i)\<lparr>VolumeMounts := VolumeMounts (Containers ps ! i) @ added\<rparr> \<and>
                    map MountPath added = ords i \<and> set added \<subseteq> set vm"
    by (simp add: SetVolumeMounts_def)
qed

text \<open>
  C4. Whatever the order in which the set difference is iterated: \<open>SetVolumes\<close> changes
  nothing when every name of its volumes is already in the pod, and \<open>SetVolumeMounts\<close>
  changes nothing when every mount path is already on every container. After one
  application the names in the pod are the union of the old names and the names of the
  step, so a second application of the same step leaves the pod specification as the
  first one made it; the same holds for the mounts of every container. A step only
  appends: one volume (one mount) of the step for each name (path) that was missing, and
  nothing for a name (path) that was there.
\<close>

theorem SetVolumes_SetVolumeMounts_idempotent:
  "(SetVolumes_iteration volumes ps ord \<and>
    SetVolumeNames volumes \<subseteq> SetVolumeNames (Volumes_of ps)
      \<longrightarrow> SetVolumes ord volumes ps = ps) \<and>
   (SetVolumes_iteration volumes ps ord1 \<and>
    SetVolumes_iteration volumes (SetVolumes ord1 volumes ps) ord2
      \<longrightarrow> SetVolumes ord2 volumes (SetVolumes ord1 volumes ps) = SetVolumes ord1 volumes ps \<and>
          SetVolumeNames (Volumes_of (SetVolumes ord1 volumes ps)) =
            SetVolumeNames (Volumes_of ps) \<union> SetVolumeNames volumes) \<and>
   (SetVolumeMounts_iteration volumesMount ps ords \<and>
    (\<forall>c\<in>set (Containers ps).
        SetVolumeMountPaths volumesMount \<subseteq> SetVolumeMountPaths (VolumeMounts c))
      \<longrightarrow> SetVolumeMounts ords volumesMount ps = ps) \<and>
   (SetVolumeMounts_iteration volumesMount ps ords1 \<and>
    SetVolumeMounts_iteration volumesMount (SetVolumeMounts ords1 volumesMount ps) ords2
      \<longrightarrow> SetVolumeMounts ords2 volumesMount (SetVolumeMounts ords1 volumesMount ps) =
            SetVolumeMounts ords1 volumesMount ps) \<and>
   (SetVolumes_iteration volumes ps ord1
      \<longrightarrow> (\<exists>added. SetVolumes ord1 volumes ps = ps\<lparr>Volumes_of := Volumes_of ps @ added\<rparr> \<and>
             map Volume_Name added = ord1 \<and> set added \<subseteq> set volumes)) \<and>
   (SetVolumeMounts_iteration volumesMount ps ords1
      \<longrightarrow> length (Containers (SetVolumeMounts ords1 volumesMount ps)) = length (Containers ps) \<and>
          (\<forall>i<length (Containers ps).
             \<exists>added. Containers (SetVolumeMounts ords1 volumesMount ps) ! i =
                       (Containers ps ! i)\<lparr>VolumeMounts :=
                          VolumeMounts (Containers ps ! i) @ added\<rparr> \<and>
                     map MountPath added = ords1 i \<and> set added \<subseteq> set volumesMount))"
proof (intro conjI impI)
  assume a: "SetVolumes_iteration volumes ps ord \<and>
    SetVolumeNames volumes \<subseteq> SetVolumeNames (Volumes_of ps)"
  then have d: "SetVolumeNames volumes - SetVolumeNames (Volumes_of ps) = {}" by blast
  from a have "iteration (SetVolumeNames volumes - SetVolumeNames (Volumes_of ps)) ord"
    by (simp add: SetVolumes_iteration_def)
  then have "iteration {} ord" by (simp only: d)
  then have "ord = []" by (simp only: iteration_empty)
  then show "SetVolumes ord volumes ps = ps" by (simp add: SetVolumes_Nil)
next
  assume a: "SetVolumes_iteration volumes ps ord1 \<and>
    SetVolumes_iteration volumes (SetVolumes ord1 volumes ps) ord2"
  then have u: "SetVolumeNames (Volumes_of (SetVolumes ord1 volumes ps)) =
      SetVolumeNames (Volumes_of ps) \<union> SetVolumeNames volumes"
    by (simp add: SetVolumes_union)
  then have d: "SetVolumeNames volumes - SetVolumeNames (Volumes_of (SetVolumes ord1 volumes ps)) = {}"
    by blast
  from a have "iteration (SetVolumeNames volumes -
      SetVolumeNames (Volumes_of (SetVolumes ord1 volumes ps))) ord2"
    by (simp add: SetVolumes_iteration_def)
  then have "iteration {} ord2" by (simp only: d)
  then have "ord2 = []" by (simp only: iteration_empty)
  then show "SetVolumes ord2 volumes (SetVolumes ord1 volumes ps) = SetVolumes ord1 volumes ps"
    by (simp add: SetVolumes_Nil)
  from u show "SetVolumeNames (Volumes_of (SetVolumes ord1 volumes ps)) =
      SetVolumeNames (Volumes_of ps) \<union> SetVolumeNames volumes" .
next
  assume "SetVolumeMounts_iteration volumesMount ps ords \<and>
    (\<forall>c\<in>set (Containers ps).
        SetVolumeMountPaths volumesMount \<subseteq> SetVolumeMountPaths (VolumeMounts c))"
  then show "SetVolumeMounts ords volumesMount ps = ps"
    by (simp add: SetVolumeMounts_noop)
next
  assume a: "SetVolumeMounts_iteration volumesMount ps ords1 \<and>
    SetVolumeMounts_iteration volumesMount (SetVolumeMounts ords1 volumesMount ps) ords2"
  then have "\<forall>c\<in>set (Containers (SetVolumeMounts ords1 volumesMount ps)).
      SetVolumeMountPaths volumesMount \<subseteq> SetVolumeMountPaths (VolumeMounts c)"
    using SetVolumeMounts_covers by blast
  with a show "SetVolumeMounts ords2 volumesMount (SetVolumeMounts ords1 volumesMount ps) =
      SetVolumeMounts ords1 volumesMount ps"
    by (simp add: SetVolumeMounts_noop)
next
  assume "SetVolumes_iteration volumes ps ord1"
  then show "\<exists>added. SetVolumes ord1 volumes ps = ps\<lparr>Volumes_of := Volumes_of ps @ added\<rparr> \<and>
             map Volume_Name added = ord1 \<and> set added \<subseteq> set volumes"
    by (rule SetVolumes_iteration_added)
next
  assume a: "SetVolumeMounts_iteration volumesMount ps ords1"
  from SetVolumeMounts_iteration_added [OF a]
  show "length (Containers (SetVolumeMounts ords1 volumesMount ps)) = length (Containers ps)"
    and "\<forall>i<length (Containers ps).
             \<exists>added. Containers (SetVolumeMounts ords1 volumesMount ps) ! i =
                       (Containers ps ! i)\<lparr>VolumeMounts :=
                          VolumeMounts (Containers ps ! i) @ added\<rparr> \<and>
                     map MountPath added = ords1 i \<and> set added \<subseteq> set volumesMount"
    by blast+
qed

theorem SetVolumes_SetVolumeMounts_witness:
  "SetVolumes_iteration example_volumes example_podSpec [''data''] \<and>
   SetVolumes_iteration example_volumes (SetVolumes [''data''] example_volumes example_podSpec) [] \<and>
   SetVolumes [] example_volumes (SetVolumes [''data''] example_volumes example_podSpec) =
     SetVolumes [''data''] example_volumes example_podSpec \<and>
   Volumes_of (SetVolumes [''data''] example_volumes example_podSpec) =
     [\<lparr>Volume_Name = ''cfg'', VolumeSource = ''configMap:old''\<rparr>,
      \<lparr>Volume_Name = ''data'', VolumeSource = ''claim:data''\<rparr>] \<and>
   SetVolumeMounts_iteration example_volumeMounts example_podSpec example_mount_orders \<and>
   SetVolumeMounts_iteration example_volumeMounts
     (SetVolumeMounts example_mount_orders example_volumeMounts example_podSpec) (\<lambda>i. []) \<and>
   SetVolumeMounts (\<lambda>i. []) example_volumeMounts
     (SetVolumeMounts example_mount_orders example_volumeMounts example_podSpec) =
     SetVolumeMounts example_mount_orders example_volumeMounts example_podSpec \<and>
   map VolumeMounts (Containers (SetVolumeMounts example_mount_orders example_volumeMounts example_podSpec)) =
     [[\<lparr>VolumeMount_Name = ''old'', MountPath = ''/data'', VolumeMount_ReadOnly = True\<rparr>,
       \<lparr>VolumeMount_Name = ''cfg'', MountPath = ''/etc/cfg'', VolumeMount_ReadOnly = True\<rparr>],
      [\<lparr>VolumeMount_Name = ''cfg'', MountPath = ''/etc/cfg'', VolumeMount_ReadOnly = True\<rparr>,
       \<lparr>VolumeMount_Name = ''data'', MountPath = ''/data'', VolumeMount_ReadOnly = False\<rparr>]]"
proof -
  have ev: "[0 ..< 2] = [0, 1]" by (simp add: upt_rec)
  have h1: "SetVolumes_iteration example_volumes example_podSpec [''data'']"
    by (auto simp: SetVolumes_iteration_def iteration_def SetVolumeNames_def
          example_volumes_def example_podSpec_def)
  have v: "Volumes_of (SetVolumes [''data''] example_volumes example_podSpec) =
     [\<lparr>Volume_Name = ''cfg'', VolumeSource = ''configMap:old''\<rparr>,
      \<lparr>Volume_Name = ''data'', VolumeSource = ''claim:data''\<rparr>]"
    by (simp add: SetVolumes_def appendFirst_def example_volumes_def example_podSpec_def)
  have h2: "SetVolumes_iteration example_volumes
              (SetVolumes [''data''] example_volumes example_podSpec) []"
    unfolding SetVolumes_iteration_def iteration_def SetVolumeNames_def v
    by (auto simp: example_volumes_def)
  have m: "map VolumeMounts (Containers (SetVolumeMounts example_mount_orders example_volumeMounts example_podSpec)) =
     [[\<lparr>VolumeMount_Name = ''old'', MountPath = ''/data'', VolumeMount_ReadOnly = True\<rparr>,
       \<lparr>VolumeMount_Name = ''cfg'', MountPath = ''/etc/cfg'', VolumeMount_ReadOnly = True\<rparr>],
      [\<lparr>VolumeMount_Name = ''cfg'', MountPath = ''/etc/cfg'', VolumeMount_ReadOnly = True\<rparr>,
       \<lparr>VolumeMount_Name = ''data'', MountPath = ''/data'', VolumeMount_ReadOnly = False\<rparr>]]"
    by (simp add: SetVolumeMounts_def SetVolumeMounts_container_def appendFirst_def ev
          example_volumeMounts_def example_podSpec_def example_mount_orders_def)
  have h3: "SetVolumeMounts_iteration example_volumeMounts example_podSpec example_mount_orders"
    by (auto simp: SetVolumeMounts_iteration_def iteration_def SetVolumeMountPaths_def ev
          example_volumeMounts_def example_podSpec_def example_mount_orders_def)
  define X where "X = SetVolumeMounts example_mount_orders example_volumeMounts example_podSpec"
  have l: "length (Containers X) = 2"
    by (simp add: X_def SetVolumeMounts_def example_podSpec_def)
  have n0: "VolumeMounts (Containers X ! 0) =
      [\<lparr>VolumeMount_Name = ''old'', MountPath = ''/data'', VolumeMount_ReadOnly = True\<rparr>,
       \<lparr>VolumeMount_Name = ''cfg'', MountPath = ''/etc/cfg'', VolumeMount_ReadOnly = True\<rparr>]"
    using l m nth_map [of 0 "Containers X" VolumeMounts] by (simp add: X_def)
  have n1: "VolumeMounts (Containers X ! Suc 0) =
      [\<lparr>VolumeMount_Name = ''cfg'', MountPath = ''/etc/cfg'', VolumeMount_ReadOnly = True\<rparr>,
       \<lparr>VolumeMount_Name = ''data'', MountPath = ''/data'', VolumeMount_ReadOnly = False\<rparr>]"
    using l m nth_map [of "Suc 0" "Containers X" VolumeMounts] by (simp add: X_def)
  have "SetVolumeMounts_iteration example_volumeMounts X (\<lambda>i. [])"
    by (auto simp: SetVolumeMounts_iteration_def l ev n0 n1 iteration_def
          SetVolumeMountPaths_def example_volumeMounts_def)
  then have h4: "SetVolumeMounts_iteration example_volumeMounts
     (SetVolumeMounts example_mount_orders example_volumeMounts example_podSpec) (\<lambda>i. [])"
    by (simp only: X_def)
  from SetVolumes_SetVolumeMounts_idempotent
         [of example_volumes example_podSpec "[]" "[''data'']" "[]" example_volumeMounts
             "\<lambda>i. []" example_mount_orders "\<lambda>i. []"]
       h1 h2 h3 h4 v m
  show ?thesis by blast
qed

subsection \<open>User directive\<close>

lemma Split_nonempty: "Split s c \<noteq> []"
  by (induction s) (auto split: list.splits)

lemma userDirective_frame:
  "Capabilities (userDirective u sc) = Capabilities sc \<and>
   Privileged_ptr (userDirective u sc) = Privileged_ptr sc \<and>
   ReadOnlyRootFilesystem (userDirective u sc) = ReadOnlyRootFilesystem sc"
  by (simp add: userDirective_def Let_def split: option.splits)

lemma userDirective_one:
  "u \<noteq> [] \<Longrightarrow> length (Split u CHR '':'') = 1 \<Longrightarrow> RunAsUser sc = None \<Longrightarrow>
   RunAsUser (userDirective u sc) = ParseInt (Split u CHR '':'' ! 0) \<and>
   RunAsGroup (userDirective u sc) = RunAsGroup sc"
  by (simp add: userDirective_def Let_def split: option.splits)

lemma userDirective_two:
  "u \<noteq> [] \<Longrightarrow> length (Split u CHR '':'') = 2 \<Longrightarrow> RunAsUser sc = None \<Longrightarrow> RunAsGroup sc = None \<Longrightarrow>
   RunAsUser (userDirective u sc) = ParseInt (Split u CHR '':'' ! 0) \<and>
   RunAsGroup (userDirective u sc) = ParseInt (Split u CHR '':'' ! 1)"
  by (simp add: userDirective_def Let_def split: option.splits)

lemma userDirective_more:
  "3 \<le> length (Split u CHR '':'') \<Longrightarrow> userDirective u sc = sc"
  by (simp add: userDirective_def Let_def)

text \<open>
  C7 (amended). For a service with a non-empty user directive, the security context the
  step builds takes its run-as-user and run-as-group from the parts of the directive
  between colons: with one part, the user is that part if \<open>strconv.ParseInt\<close> accepts it
  (a decimal integer with an optional sign, in the signed 64-bit range: negative numbers
  too) and is unset otherwise, and the group is unset; with two parts, user and group are
  set from the first and second part, each on its own, and a part that does not parse
  leaves its field unset; with three or more parts neither field is set. The template
  filler of \<open>UpdateKubernetesObjects\<close> sets the two fields to the same values. The step
  does not fail on a pod specification that has a container, whatever the directive is.
\<close>

theorem SecurityContext_user_directive:
  "User service \<noteq> [] \<longrightarrow>
     (length (Split (User service) CHR '':'') = 1 \<longrightarrow>
        RunAsUser (securityContext_of service caps) = ParseInt (Split (User service) CHR '':'' ! 0) \<and>
        RunAsGroup (securityContext_of service caps) = None) \<and>
     (length (Split (User service) CHR '':'') = 2 \<longrightarrow>
        RunAsUser (securityContext_of service caps) = ParseInt (Split (User service) CHR '':'' ! 0) \<and>
        RunAsGroup (securityContext_of service caps) = ParseInt (Split (User service) CHR '':'' ! 1)) \<and>
     (3 \<le> length (Split (User service) CHR '':'') \<longrightarrow>
        RunAsUser (securityContext_of service caps) = None \<and>
        RunAsGroup (securityContext_of service caps) = None) \<and>
     RunAsUser (fillTemplate_securityContext service caps) =
       RunAsUser (securityContext_of service caps) \<and>
     RunAsGroup (fillTemplate_securityContext service caps) =
       RunAsGroup (securityContext_of service caps) \<and>
     (Containers podSpec \<noteq> [] \<longrightarrow>
        (\<exists>podSpec'. SecurityContext nm service caps podSpec = Inr podSpec' \<and>
           length (Containers podSpec') = length (Containers podSpec) \<and>
           (securityContext_of service caps \<noteq> SecurityContext_zero \<longrightarrow>
              Container_SecurityContext (hd (Containers podSpec')) =
                Some (securityContext_of service caps))))"
proof (intro impI conjI)
  assume u: "User service \<noteq> []"
  let ?sc1 = "if Privileged service
              then SecurityContext_zero\<lparr>Privileged_ptr := Some (Privileged service)\<rparr>
              else SecurityContext_zero"
  have z: "RunAsUser ?sc1 = None" "RunAsGroup ?sc1 = None"
    by (simp_all add: SecurityContext_zero_def)
  have ru: "RunAsUser (securityContext_of service caps) = RunAsUser (userDirective (User service) ?sc1)"
    and rg: "RunAsGroup (securityContext_of service caps) = RunAsGroup (userDirective (User service) ?sc1)"
    by (simp_all add: securityContext_of_def Let_def)
  {
    assume l: "length (Split (User service) CHR '':'') = 1"
    from userDirective_one [OF u l z(1)] z(2) ru rg
    show "RunAsUser (securityContext_of service caps) = ParseInt (Split (User service) CHR '':'' ! 0)"
      and "RunAsGroup (securityContext_of service caps) = None"
      by simp_all
  }
  {
    assume l: "length (Split (User service) CHR '':'') = 2"
    from userDirective_two [OF u l z] ru rg
    show "RunAsUser (securityContext_of service caps) = ParseInt (Split (User service) CHR '':'' ! 0)"
      and "RunAsGroup (securityContext_of service caps) = ParseInt (Split (User service) CHR '':'' ! 1)"
      by simp_all
  }
  {
    assume l: "3 \<le> length (Split (User service) CHR '':'')"
    from userDirective_more [OF l, of ?sc1] z ru rg
    show "RunAsUser (securityContext_of service caps) = None"
      and "RunAsGroup (securityContext_of service caps) = None"
      by simp_all
  }
  show "RunAsUser (fillTemplate_securityContext service caps) =
      RunAsUser (securityContext_of service caps)"
    and "RunAsGroup (fillTemplate_securityContext service caps) =
      RunAsGroup (securityContext_of service caps)"
    by (simp_all add: fillTemplate_securityContext_def Let_def)
  {
    assume "Containers podSpec \<noteq> []"
    then obtain c cs where c: "Containers podSpec = c # cs" by (cases "Containers podSpec") auto
    show "\<exists>podSpec'. SecurityContext nm service caps podSpec = Inr podSpec' \<and>
           length (Containers podSpec') = length (Containers podSpec) \<and>
           (securityContext_of service caps \<noteq> SecurityContext_zero \<longrightarrow>
              Container_SecurityContext (hd (Containers podSpec')) =
                Some (securityContext_of service caps))"
      by (simp add: SecurityContext_def Let_def c)
  }
qed

theorem SecurityContext_user_directive_witness:
  "User example_service \<noteq> [] \<and> length (Split (User example_service) CHR '':'') = 2 \<and>
   RunAsUser (securityContext_of example_service \<lparr>Add = [], Drop = []\<rparr>) = Some 1000 \<and>
   RunAsGroup (securityContext_of example_service \<lparr>Add = [], Drop = []\<rparr>) = None \<and>
   Containers example_podSpec \<noteq> [] \<and>
   (\<exists>podSpec'. SecurityContext ''web'' example_service \<lparr>Add = [], Drop = []\<rparr> example_podSpec
                  = Inr podSpec' \<and>
      length (Containers podSpec') = length (Containers example_podSpec))"
proof -
  have u: "User example_service \<noteq> []" by (simp add: example_service_def)
  have s: "Split (User example_service) CHR '':'' = [''1000'', ''staff'']"
    by (simp add: example_service_def)
  have p: "ParseInt ''1000'' = Some 1000" "ParseInt ''staff'' = None"
    by (simp_all add: ParseInt_def isDigit_def digitVal_def)
  have c: "Containers example_podSpec \<noteq> []" by (simp add: example_podSpec_def)
  from SecurityContext_user_directive
         [of example_service "\<lparr>Add = [], Drop = []\<rparr>" example_podSpec "''web''"] u c
  show ?thesis unfolding s using p by auto
qed

text \<open>
  C7 (as stated) fails: the directive \<open>-1\<close> is not a non-negative integer, and it is not
  dropped; the run-as-user field is set to \<open>-1\<close>.
\<close>

theorem userDirective_accepts_negative:
  "RunAsUser (securityContext_of (example_service\<lparr>User := ''-1''\<rparr>) \<lparr>Add = [], Drop = []\<rparr>)
     = Some (- 1)"
  by (simp add: securityContext_of_def userDirective_def example_service_def
        SecurityContext_zero_def ParseInt_def isDigit_def digitVal_def Let_def)

subsection \<open>Update strategy\<close>

lemma updateLoop_success:
  "updateLoop K w service opt pvc done objs = (None, res) \<Longrightarrow>
   res = done @ map (afterVisit K w service opt pvc) objs"
proof (induction objs arbitrary: "done")
  case Nil
  then show ?case by simp
next
  case (Cons obj objs)
  obtain e obj1 where u: "UpdateController K obj = (e, obj1)" by (cases "UpdateController K obj")
  show ?case
  proof (cases e)
    case None
    with Cons.prems u have "updateLoop K w service opt pvc
        (done @ [afterVisit K w service opt pvc obj]) objs = (None, res)"
      by (auto simp: afterVisit_def split: if_splits)
    from Cons.IH [OF this] show ?thesis by simp
  next
    case (Some err)
    with Cons.prems u show ?thesis by simp
  qed
qed

lemma volumeStrategy_GoType: "GoType (volumeStrategy w opt pvc t obj) = GoType obj"
  by (simp add: volumeStrategy_def split: gotype.splits)

lemma volumeStrategy_workload:
  "t = GoDeployment \<or> t = GoDeploymentConfig \<Longrightarrow>
   Strategy_Type (volumeStrategy w opt pvc t obj) = ''Recreate''"
  by (auto simp: volumeStrategy_def)

lemma afterVisit_props:
  assumes "UpdateController_frame K"
  shows "GoType (afterVisit K w service opt pvc obj) = GoType obj"
    and "GoType obj = GoDeployment \<or> GoType obj = GoDeploymentConfig \<Longrightarrow>
         Strategy_Type (afterVisit K w service opt pvc obj) =
           (if Volumes service \<noteq> [] then ''Recreate'' else Strategy_Type obj)"
  using assms
  by (auto simp: afterVisit_def UpdateController_frame_def volumeStrategy_GoType
        volumeStrategy_workload)

lemma strategyUpdated_map:
  assumes "UpdateController_frame K"
    and "objects' = map (afterVisit K w service opt pvc) (objects @ extra)"
  shows "length objects \<le> length objects' \<and>
      (\<forall>i<length objects.
         GoType (objects' ! i) = GoType (objects ! i) \<and>
         (GoType (objects ! i) = GoDeployment \<or> GoType (objects ! i) = GoDeploymentConfig \<longrightarrow>
          Strategy_Type (objects' ! i) =
            (if Volumes service \<noteq> [] then ''Recreate'' else Strategy_Type (objects ! i))))"
  using afterVisit_props [OF assms(1)] assms(2)
  by (simp add: nth_append)

text \<open>
  C8. Let \<open>UpdateController\<close> leave the Go type and the update strategy of an object as they
  are. When the update pass (\<open>UpdateKubernetesObjects\<close> or
  \<open>UpdateKubernetesObjectsMultipleContainers\<close>) ends without an error, every object of the
  input list is still at its place with its Go type, and every Deployment and
  DeploymentConfig among them has the strategy \<open>Recreate\<close> if the service declares a
  volume, and the strategy it had before if the service declares none.
\<close>

theorem UpdateKubernetesObjects_recreate:
  "UpdateController_frame K \<longrightarrow>
     (UpdateKubernetesObjects K nm service opt objects = (None, objects') \<longrightarrow>
        length objects \<le> length objects' \<and>
        (\<forall>i<length objects.
           GoType (objects' ! i) = GoType (objects ! i) \<and>
           (GoType (objects ! i) = GoDeployment \<or> GoType (objects ! i) = GoDeploymentConfig \<longrightarrow>
            Strategy_Type (objects' ! i) =
              (if Volumes service \<noteq> [] then ''Recreate'' else Strategy_Type (objects ! i))))) \<and>
     (UpdateKubernetesObjectsMultipleContainers K nm service objects opt = (None, objects') \<longrightarrow>
        length objects \<le> length objects' \<and>
        (\<forall>i<length objects.
           GoType (objects' ! i) = GoType (objects ! i) \<and>
           (GoType (objects ! i) = GoDeployment \<or> GoType (objects ! i) = GoDeploymentConfig \<longrightarrow>
            Strategy_Type (objects' ! i) =
              (if Volumes service \<noteq> [] then ''Recreate'' else Strategy_Type (objects ! i)))))"
proof (intro impI conjI)
  assume f: "UpdateController_frame K"
  {
    assume a: "UpdateKubernetesObjects K nm service opt objects = (None, objects')"
    then obtain pvc cms where cv: "ConfigVolumes K = Inr (pvc, cms)" and ce: "ConfigEnvs K = None"
      by (auto simp: UpdateKubernetesObjects_def split: option.splits sum.splits)
    let ?o1 = "if pvc \<noteq> [] \<and> Controller opt \<noteq> StatefulStateController K
               then objects @ map (asObject GoPersistentVolumeClaim) pvc else objects"
    from a cv ce have "updateLoop K True service opt pvc []
        (?o1 @ map (asObject GoConfigMap) cms) = (None, objects')"
      by (simp add: UpdateKubernetesObjects_def Let_def)
    from updateLoop_success [OF this]
    have r: "objects' = map (afterVisit K True service opt pvc) (?o1 @ map (asObject GoConfigMap) cms)"
      by simp
    have "\<exists>extra. ?o1 @ map (asObject GoConfigMap) cms = objects @ extra" by simp
    then obtain extra where "?o1 @ map (asObject GoConfigMap) cms = objects @ extra" ..
    with r have "objects' = map (afterVisit K True service opt pvc) (objects @ extra)" by simp
    from strategyUpdated_map [OF f this]
    show "length objects \<le> length objects'"
      and "\<forall>i<length objects.
           GoType (objects' ! i) = GoType (objects ! i) \<and>
           (GoType (objects ! i) = GoDeployment \<or> GoType (objects ! i) = GoDeploymentConfig \<longrightarrow>
            Strategy_Type (objects' ! i) =
              (if Volumes service \<noteq> [] then ''Recreate'' else Strategy_Type (objects ! i)))"
      by blast+
  }
  {
    assume a: "UpdateKubernetesObjectsMultipleContainers K nm service objects opt = (None, objects')"
    then have "updateLoop K False service opt [] [] objects = (None, objects')"
      by (simp add: UpdateKubernetesObjectsMultipleContainers_def)
    from updateLoop_success [OF this]
    have "objects' = map (afterVisit K False service opt []) (objects @ [])" by simp
    from strategyUpdated_map [OF f this]
    show "length objects \<le> length objects'"
      and "\<forall>i<length objects.
           GoType (objects' ! i) = GoType (objects ! i) \<and>
           (GoType (objects ! i) = GoDeployment \<or> GoType (objects ! i) = GoDeploymentConfig \<longrightarrow>
            Strategy_Type (objects' ! i) =
              (if Volumes service \<noteq> [] then ''Recreate'' else Strategy_Type (objects ! i)))"
      by blast+
  }
qed

theorem UpdateKubernetesObjects_recreate_witness:
  "UpdateController_frame example_collaborators \<and>
   UpdateKubernetesObjects example_collaborators ''web'' example_service example_options
       example_objects =
     (None, [(example_deployment ''web'' [example_container ''web''])\<lparr>Strategy_Type := ''Recreate''\<rparr>,
             example_objects ! 1,
             asObject GoPersistentVolumeClaim
               \<lparr>meta_Group = [], meta_Version = ''v1'', meta_Kind = ''PersistentVolumeClaim'',
                meta_Namespace = [], meta_Name = ''data'', meta_Other = []\<rparr>]) \<and>
   0 < length example_objects \<and> GoType (example_objects ! 0) = GoDeployment \<and>
   Volumes example_service \<noteq> [] \<and>
   Strategy_Type
     ([(example_deployment ''web'' [example_container ''web''])\<lparr>Strategy_Type := ''Recreate''\<rparr>,
       example_objects ! 1,
       asObject GoPersistentVolumeClaim
         \<lparr>meta_Group = [], meta_Version = ''v1'', meta_Kind = ''PersistentVolumeClaim'',
          meta_Namespace = [], meta_Name = ''data'', meta_Other = []\<rparr>] ! 0) = ''Recreate''"
proof -
  have f: "UpdateController_frame example_collaborators"
    by (simp add: UpdateController_frame_def example_collaborators_def)
  have e: "UpdateKubernetesObjects example_collaborators ''web'' example_service example_options
       example_objects =
     (None, [(example_deployment ''web'' [example_container ''web''])\<lparr>Strategy_Type := ''Recreate''\<rparr>,
             example_objects ! 1,
             asObject GoPersistentVolumeClaim
               \<lparr>meta_Group = [], meta_Version = ''v1'', meta_Kind = ''PersistentVolumeClaim'',
                meta_Namespace = [], meta_Name = ''data'', meta_Other = []\<rparr>])"
    by (simp add: UpdateKubernetesObjects_def example_collaborators_def example_service_def
          example_options_def example_objects_def example_deployment_def volumeStrategy_def
          asObject_def Let_def)
  have l: "0 < length example_objects" by (simp add: example_objects_def)
  have g: "GoType (example_objects ! 0) = GoDeployment"
    by (simp add: example_objects_def example_deployment_def)
  have v: "Volumes example_service \<noteq> []" by (simp add: example_service_def)
  from UpdateKubernetesObjects_recreate
         [of example_collaborators "''web''" example_service example_options example_objects
             "[(example_deployment ''web'' [example_container ''web''])\<lparr>Strategy_Type := ''Recreate''\<rparr>,
               example_objects ! 1,
               asObject GoPersistentVolumeClaim
                 \<lparr>meta_Group = [], meta_Version = ''v1'', meta_Kind = ''PersistentVolumeClaim'',
                  meta_Namespace = [], meta_Name = ''data'', meta_Other = []\<rparr>]"]
       f e l g v
  show ?thesis by presburger
qed

subsection \<open>Network-mode merge\<close>

lemma Split_no_sep: "c \<notin> set s \<Longrightarrow> Split s c = [s]"
  by (induction s) auto

lemma Split_prefix_sep: "c \<notin> set p \<Longrightarrow> Split (p @ c # s) c = p # Split s c"
  by (induction p) auto

lemma Contains_prefix: "Contains (sub @ s) sub"
proof (cases "sub @ s")
  case Nil
  then show ?thesis by simp
next
  case (Cons a list)
  have "prefix sub (sub @ s)" by simp
  with Cons show ?thesis by simp
qed

lemma search_loop_set:
  "set (searchNetworkModeToService_loop services acc) =
     set acc \<union>
     {\<lparr>SourceDeploymentName = Name s,
       TargetDeploymentName = Split (NetworkMode s) CHR '':'' ! 1\<rparr> | s.
        s \<in> set services \<and> Contains (NetworkMode s) NetworkModeService \<and>
        2 \<le> length (Split (NetworkMode s) CHR '':'')}"
proof (induction services arbitrary: acc)
  case Nil
  then show ?case by simp
next
  case (Cons a services)
  show ?case
    by (simp add: Cons.IH Let_def) (auto simp: not_less)
qed

lemma search_set:
  "set (searchNetworkModeToService services) =
     {\<lparr>SourceDeploymentName = Name s,
       TargetDeploymentName = Split (NetworkMode s) CHR '':'' ! 1\<rparr> | s.
        s \<in> set services \<and> Contains (NetworkMode s) NetworkModeService \<and>
        2 \<le> length (Split (NetworkMode s) CHR '':'')}"
  by (simp add: searchNetworkModeToService_def search_loop_set)

lemma search_joining:
  assumes "s \<in> set services" and "NetworkMode s = ''service:'' @ B" and "CHR '':'' \<notin> set B"
  shows "\<lparr>SourceDeploymentName = Name s, TargetDeploymentName = B\<rparr>
           \<in> set (searchNetworkModeToService services)"
proof -
  have sp: "Split (NetworkMode s) CHR '':'' = [''service'', B]"
    using Split_prefix_sep [of "CHR '':''" "''service''" B] Split_no_sep [OF assms(3)] assms(2)
    by simp
  have "Contains (NetworkMode s) NetworkModeService"
    using Contains_prefix [of "''service:''" B] assms(2) by (simp add: NetworkModeService_def)
  with sp assms(1) show ?thesis
    unfolding search_set by force
qed

lemma search_sources:
  "m \<in> set (searchNetworkModeToService services) \<Longrightarrow>
   \<exists>s\<in>set services. Name s = SourceDeploymentName m \<and> Contains (NetworkMode s) NetworkModeService"
  unfolding search_set by auto

lemma appendsOnly_iff:
  "appendsOnly xs ys \<longleftrightarrow>
     length ys = length xs \<and>
     (\<forall>i<length xs. GoType (ys ! i) = GoType (xs ! i) \<and>
                     ObjectMeta_Name (ys ! i) = ObjectMeta_Name (xs ! i) \<and>
                     prefix (Template_Containers (xs ! i)) (Template_Containers (ys ! i)))"
  by (auto simp: appendsOnly_def list_all_iff)

lemma appendsOnly_refl: "appendsOnly xs xs"
  by (simp add: appendsOnly_iff)

lemma appendsOnly_trans: "appendsOnly xs ys \<Longrightarrow> appendsOnly ys zs \<Longrightarrow> appendsOnly xs zs"
  unfolding appendsOnly_iff by (metis prefix_order.order_trans)

lemma appendsOnly_named:
  "appendsOnly xs ys \<Longrightarrow> i < length xs \<Longrightarrow>
   isDeploymentNamed n (ys ! i) = isDeploymentNamed n (xs ! i)"
  by (simp add: appendsOnly_iff isDeploymentNamed_def)

lemma addContainersToTargetDeployment_appendsOnly:
  "appendsOnly xs (addContainersToTargetDeployment xs cs n)"
  by (simp add: appendsOnly_iff addContainersToTargetDeployment_def)

lemma fold_appendsOnly:
  assumes "\<And>a ys. appendsOnly xs ys \<Longrightarrow> appendsOnly xs (f a ys)"
  shows "appendsOnly xs ys \<Longrightarrow> appendsOnly xs (fold f as ys)"
  by (induction as arbitrary: ys) (simp_all add: assms)

lemma addContainersFromSource_appendsOnly:
  "appendsOnly xs (addContainersFromSourceToTargetDeployment xs m)"
  unfolding addContainersFromSourceToTargetDeployment_def
proof (rule fold_appendsOnly)
  fix i ys assume "appendsOnly xs ys"
  then show "appendsOnly xs
     (if isDeploymentNamed (SourceDeploymentName m) (ys ! i)
      then addContainersToTargetDeployment ys (Template_Containers (ys ! i)) (TargetDeploymentName m)
      else ys)"
    using appendsOnly_trans [OF _ addContainersToTargetDeployment_appendsOnly] by simp
qed (rule appendsOnly_refl)

lemma merge_appendsOnly:
  "appendsOnly xs (mergeContainersIntoDestinationDeployment ms xs)"
  unfolding mergeContainersIntoDestinationDeployment_def
proof (rule fold_appendsOnly)
  fix m ys assume "appendsOnly xs ys"
  then show "appendsOnly xs (addContainersFromSourceToTargetDeployment ys m)"
    using appendsOnly_trans [OF _ addContainersFromSource_appendsOnly] by simp
qed (rule appendsOnly_refl)

lemma appended_named: "isDeploymentNamed n (appended t cs obj) = isDeploymentNamed n obj"
  by (simp add: appended_def isDeploymentNamed_def)

lemma appended_other: "\<not> isDeploymentNamed t obj \<Longrightarrow> appended t cs obj = obj"
  by (simp add: appended_def)

lemma appended_appended: "appended t cs2 (appended t cs1 obj) = appended t (cs1 @ cs2) obj"
  by (simp add: appended_def isDeploymentNamed_def)

lemma source_prefix_fold:
  assumes st: "S \<noteq> T" and k: "k \<le> length X"
  shows "fold (\<lambda>i objs.
             if isDeploymentNamed S (objs ! i)
             then addContainersToTargetDeployment objs (Template_Containers (objs ! i)) T
             else objs) [0 ..< k] X
         = map (appended T (concat (map Template_Containers
                  (filter (isDeploymentNamed S) (take k X))))) X"
  using k
proof (induction k)
  case 0
  have "map (appended T []) X = X"
    by (rule map_idI) (simp add: appended_def)
  then show ?case by simp
next
  case (Suc k)
  let ?cs = "concat (map Template_Containers (filter (isDeploymentNamed S) (take k X)))"
  let ?Y = "map (appended T ?cs) X"
  from Suc.prems have kl: "k < length X" by simp
  have IH: "fold (\<lambda>i objs.
             if isDeploymentNamed S (objs ! i)
             then addContainersToTargetDeployment objs (Template_Containers (objs ! i)) T
             else objs) [0 ..< k] X = ?Y"
    using Suc.IH kl by simp
  have tk: "take (Suc k) X = take k X @ [X ! k]"
    using kl by (simp add: take_Suc_conv_app_nth)
  have yk: "?Y ! k = appended T ?cs (X ! k)" using kl by simp
  show ?case
  proof (cases "isDeploymentNamed S (X ! k)")
    case True
    with st have "\<not> isDeploymentNamed T (X ! k)" by (auto simp: isDeploymentNamed_def)
    then have same: "?Y ! k = X ! k" using yk by (simp add: appended_other)
    have "addContainersToTargetDeployment ?Y (Template_Containers (X ! k)) T
            = map (appended T (Template_Containers (X ! k))) ?Y"
      by (simp add: addContainersToTargetDeployment_def appended_def)
    also have "\<dots> = map (appended T (?cs @ Template_Containers (X ! k))) X"
      by (simp add: appended_appended comp_def)
    finally show ?thesis
      using True same IH tk by simp
  next
    case False
    then have "\<not> isDeploymentNamed S (?Y ! k)" using yk by (simp add: appended_named)
    with False IH tk show ?thesis by simp
  qed
qed

lemma addContainersFromSource_closed:
  assumes "SourceDeploymentName m \<noteq> TargetDeploymentName m"
  shows "addContainersFromSourceToTargetDeployment X m =
           map (appended (TargetDeploymentName m)
                  (concat (map Template_Containers
                     (filter (isDeploymentNamed (SourceDeploymentName m)) X)))) X"
  unfolding addContainersFromSourceToTargetDeployment_def
  using source_prefix_fold [OF assms, of "length X" X] by simp

lemma merge_append:
  "mergeContainersIntoDestinationDeployment (ms1 @ ms2) X =
     mergeContainersIntoDestinationDeployment ms2 (mergeContainersIntoDestinationDeployment ms1 X)"
  by (simp add: mergeContainersIntoDestinationDeployment_def)

lemma merge_Cons:
  "mergeContainersIntoDestinationDeployment (m # ms) X =
     mergeContainersIntoDestinationDeployment ms (addContainersFromSourceToTargetDeployment X m)"
  by (simp add: mergeContainersIntoDestinationDeployment_def)

lemma appendsOnly_containers:
  "appendsOnly xs ys \<Longrightarrow> i < length xs \<Longrightarrow>
   \<exists>e. Template_Containers (ys ! i) = Template_Containers (xs ! i) @ e"
  by (auto simp: appendsOnly_iff prefix_def)

lemma merge_contains:
  assumes m: "m \<in> set ms" and ne: "SourceDeploymentName m \<noteq> TargetDeploymentName m"
    and i: "i < length X" and bi: "isDeploymentNamed (TargetDeploymentName m) (X ! i)"
    and j: "j < length X" and aj: "isDeploymentNamed (SourceDeploymentName m) (X ! j)"
  shows "\<exists>pre post. Template_Containers (mergeContainersIntoDestinationDeployment ms X ! i) =
           Template_Containers (X ! i) @ pre @ Template_Containers (X ! j) @ post"
proof -
  from m obtain ms1 ms2 where ms: "ms = ms1 @ m # ms2" by (auto simp: in_set_conv_decomp)
  let ?S = "SourceDeploymentName m" and ?T = "TargetDeploymentName m"
  let ?X1 = "mergeContainersIntoDestinationDeployment ms1 X"
  let ?X2 = "addContainersFromSourceToTargetDeployment ?X1 m"
  let ?X3 = "mergeContainersIntoDestinationDeployment ms2 ?X2"
  have r: "mergeContainersIntoDestinationDeployment ms X = ?X3"
    by (simp add: ms merge_append merge_Cons)
  have a1: "appendsOnly X ?X1" by (rule merge_appendsOnly)
  have a2: "appendsOnly ?X1 ?X2" by (rule addContainersFromSource_appendsOnly)
  have a3: "appendsOnly ?X2 ?X3" by (rule merge_appendsOnly)
  from a1 have l1: "length ?X1 = length X" by (simp add: appendsOnly_iff)
  from a2 l1 have l2: "length ?X2 = length X" by (simp add: appendsOnly_iff)
  from appendsOnly_containers [OF a1 i] obtain e1
    where e1: "Template_Containers (?X1 ! i) = Template_Containers (X ! i) @ e1" ..
  from appendsOnly_containers [OF a1 j] obtain e2
    where e2: "Template_Containers (?X1 ! j) = Template_Containers (X ! j) @ e2" ..
  from appendsOnly_containers [OF a3, of i] i l2 obtain e3
    where e3: "Template_Containers (?X3 ! i) = Template_Containers (?X2 ! i) @ e3" by auto
  have b1: "isDeploymentNamed ?T (?X1 ! i)" using appendsOnly_named [OF a1 i] bi by simp
  have s1: "isDeploymentNamed ?S (?X1 ! j)" using appendsOnly_named [OF a1 j] aj by simp
  have "?X1 ! j \<in> set (filter (isDeploymentNamed ?S) ?X1)" using s1 j l1 by simp
  then obtain f1 f2 where f: "filter (isDeploymentNamed ?S) ?X1 = f1 @ (?X1 ! j) # f2"
    by (meson split_list)
  have "?X2 ! i = appended ?T (concat (map Template_Containers
                     (filter (isDeploymentNamed ?S) ?X1))) (?X1 ! i)"
    using addContainersFromSource_closed [OF ne, of ?X1] i l1 by simp
  then have "Template_Containers (?X2 ! i) =
      Template_Containers (?X1 ! i) @ concat (map Template_Containers f1) @
      Template_Containers (?X1 ! j) @ concat (map Template_Containers f2)"
    using b1 by (simp add: appended_def f)
  with e1 e2 e3 r
  have "Template_Containers (mergeContainersIntoDestinationDeployment ms X ! i) =
      Template_Containers (X ! i) @ (e1 @ concat (map Template_Containers f1)) @
      Template_Containers (X ! j) @ (e2 @ concat (map Template_Containers f2) @ e3)"
    by simp
  then show ?thesis by blast
qed

lemma merge_single:
  assumes ne: "SourceDeploymentName m \<noteq> TargetDeploymentName m"
    and i: "i < length X" and bi: "isDeploymentNamed (TargetDeploymentName m) (X ! i)"
    and a: "filter (isDeploymentNamed (SourceDeploymentName m)) X = [a]"
  shows "Template_Containers (mergeContainersIntoDestinationDeployment [m] X ! i) =
           Template_Containers (X ! i) @ Template_Containers a"
  using addContainersFromSource_closed [OF ne, of X] i bi a
  by (simp add: mergeContainersIntoDestinationDeployment_def appended_def)

lemma removeFromSlice_remove1: "removeFromSlice xs x = remove1 x xs"
  by (induction xs) auto

lemma remove1_nth_decomp:
  "i < length xs \<Longrightarrow> \<exists>p\<le>i. remove1 (xs ! i) xs = take p xs @ drop (Suc p) xs"
proof (induction xs arbitrary: i)
  case Nil
  then show ?case by simp
next
  case (Cons a as)
  show ?case
  proof (cases "a = (a # as) ! i")
    case True
    then have "remove1 ((a # as) ! i) (a # as) = take 0 (a # as) @ drop (Suc 0) (a # as)" by simp
    then show ?thesis by blast
  next
    case False
    then obtain i' where i': "i = Suc i'" by (cases i) auto
    with Cons.prems have "i' < length as" by simp
    from Cons.IH [OF this] obtain p where p: "p \<le> i'"
      and r: "remove1 (as ! i') as = take p as @ drop (Suc p) as" by blast
    from False i' r have "remove1 ((a # as) ! i) (a # as) =
        take (Suc p) (a # as) @ drop (Suc (Suc p)) (a # as)" by simp
    moreover from p i' have "Suc p \<le> i" by simp
    ultimately show ?thesis by blast
  qed
qed

lemma filter_remove1_other: "\<not> P x \<Longrightarrow> filter P (remove1 x xs) = filter P xs"
  by (induction xs) auto

lemma removeTargetDeployment_loop_filter:
  "k \<le> length xs \<Longrightarrow> \<forall>x\<in>set (drop k xs). \<not> isDeploymentNamed n x \<Longrightarrow>
   removeTargetDeployment_loop k xs n = Inr (filter (\<lambda>x. \<not> isDeploymentNamed n x) xs)"
proof (induction k arbitrary: xs)
  case 0
  then have "filter (\<lambda>x. \<not> isDeploymentNamed n x) xs = xs" by simp
  then show ?case by simp
next
  case (Suc k)
  from Suc.prems have kl: "k < length xs" by simp
  show ?case
  proof (cases "isDeploymentNamed n (xs ! k)")
    case True
    from remove1_nth_decomp [OF kl] obtain p where p: "p \<le> k"
      and r: "remove1 (xs ! k) xs = take p xs @ drop (Suc p) xs" by blast
    let ?xs' = "remove1 (xs ! k) xs"
    have len: "k \<le> length ?xs'" using kl by (simp add: length_remove1)
    have "drop k ?xs' = drop (Suc k) xs"
      using p kl by (simp add: r)
    with Suc.prems have inv: "\<forall>x\<in>set (drop k ?xs'). \<not> isDeploymentNamed n x" by simp
    have "filter (\<lambda>x. \<not> isDeploymentNamed n x) ?xs' = filter (\<lambda>x. \<not> isDeploymentNamed n x) xs"
      using True by (simp add: filter_remove1_other)
    with Suc.IH [OF len inv] True kl show ?thesis
      by (simp add: removeFromSlice_remove1)
  next
    case False
    have "drop k xs = xs ! k # drop (Suc k) xs" using kl by (simp add: Cons_nth_drop_Suc)
    with False Suc.prems have inv: "\<forall>x\<in>set (drop k xs). \<not> isDeploymentNamed n x" by simp
    from kl have "k \<le> length xs" by simp
    from Suc.IH [OF this inv] False kl show ?thesis by simp
  qed
qed

lemma removeTargetDeployment_filter:
  "removeTargetDeployment xs n = Inr (filter (\<lambda>x. \<not> isDeploymentNamed n x) xs)"
  unfolding removeTargetDeployment_def
  by (rule removeTargetDeployment_loop_filter) simp_all

lemma removeDeploymentTransfered_filter:
  "removeDeploymentTransfered ms xs =
     Inr (filter (\<lambda>x. \<forall>m\<in>set ms. \<not> isDeploymentNamed (SourceDeploymentName m) x) xs)"
proof (induction ms arbitrary: xs)
  case Nil
  then show ?case by simp
next
  case (Cons m ms)
  have "filter (\<lambda>x. \<forall>m\<in>set ms. \<not> isDeploymentNamed (SourceDeploymentName m) x)
          (filter (\<lambda>x. \<not> isDeploymentNamed (SourceDeploymentName m) x) xs)
        = filter (\<lambda>x. \<forall>m\<in>set (m # ms). \<not> isDeploymentNamed (SourceDeploymentName m) x) xs"
    by (induction xs) auto
  then show ?case by (simp add: removeTargetDeployment_filter Cons.IH)
qed

lemma fixNetworkModeToService_closed:
  "fixNetworkModeToService objects services =
     Inr (filter (\<lambda>x. \<forall>m\<in>set (searchNetworkModeToService services).
                        \<not> isDeploymentNamed (SourceDeploymentName m) x)
            (mergeContainersIntoDestinationDeployment (searchNetworkModeToService services) objects))"
  by (simp add: fixNetworkModeToService_def Let_def removeDeploymentTransfered_filter
        mergeContainersIntoDestinationDeployment_def)

text \<open>
  C1 (amended). Let service \<open>A\<close> have the network mode \<open>service:B\<close>, let no service named \<open>B\<close>
  have a network mode that joins a service, and let the object list hold a Deployment
  \<open>a\<close> named \<open>A\<close> and a Deployment \<open>b\<close> named \<open>B\<close>. Then, in whatever order the services are
  scanned, the merge pass returns a list with no Deployment named \<open>A\<close> and with a
  Deployment named \<open>B\<close> whose containers are those of \<open>b\<close> first and those of \<open>a\<close> after
  them (containers of other services merged into \<open>B\<close> or into \<open>A\<close> may stand between and
  behind); they are exactly the containers of \<open>b\<close> followed by those of \<open>a\<close> when \<open>A\<close> is
  the only joining service and \<open>a\<close> the only Deployment named \<open>A\<close>.
\<close>

theorem fixNetworkModeToService_merges:
  assumes svc: "service \<in> set services"
    and nm: "Name service = A"
    and mode: "NetworkMode service = ''service:'' @ B"
    and colon: "CHR '':'' \<notin> set B"
    and nosrc: "\<forall>s\<in>set services. Name s = B \<longrightarrow> \<not> Contains (NetworkMode s) NetworkModeService"
    and a: "a \<in> set objects" and da: "isDeploymentNamed A a"
    and b: "b \<in> set objects" and db: "isDeploymentNamed B b"
  shows "\<exists>result. fixNetworkModeToService objects services = Inr result \<and>
           (\<forall>obj\<in>set result. \<not> isDeploymentNamed A obj) \<and>
           (\<exists>b'\<in>set result. isDeploymentNamed B b' \<and>
              (\<exists>pre post. Template_Containers b' =
                  Template_Containers b @ pre @ Template_Containers a @ post) \<and>
              (length (searchNetworkModeToService services) = 1 \<and>
               filter (isDeploymentNamed A) objects = [a]
                 \<longrightarrow> Template_Containers b' = Template_Containers b @ Template_Containers a))"
proof -
  let ?ms = "searchNetworkModeToService services"
  let ?m = "\<lparr>SourceDeploymentName = A, TargetDeploymentName = B\<rparr>"
  let ?M = "mergeContainersIntoDestinationDeployment ?ms objects"
  let ?keep = "\<lambda>x. \<forall>m\<in>set ?ms. \<not> isDeploymentNamed (SourceDeploymentName m) x"
  have m: "?m \<in> set ?ms" using search_joining [OF svc mode colon] nm by simp
  have src: "\<forall>m\<in>set ?ms. SourceDeploymentName m \<noteq> B"
    using search_sources nosrc by blast
  with m have ne: "SourceDeploymentName ?m \<noteq> TargetDeploymentName ?m" by force
  have res: "fixNetworkModeToService objects services = Inr (filter ?keep ?M)"
    by (rule fixNetworkModeToService_closed)
  have noA: "\<forall>obj\<in>set (filter ?keep ?M). \<not> isDeploymentNamed A obj"
    using m by force
  from b obtain i where i: "i < length objects" and bi: "objects ! i = b"
    by (auto simp: in_set_conv_nth)
  from a obtain j where j: "j < length objects" and aj: "objects ! j = a"
    by (auto simp: in_set_conv_nth)
  have ao: "appendsOnly objects ?M" by (rule merge_appendsOnly)
  then have len: "length ?M = length objects" by (simp add: appendsOnly_iff)
  have dB: "isDeploymentNamed B (?M ! i)"
    using appendsOnly_named [OF ao i] bi db by simp
  then have "?keep (?M ! i)" using src by (auto simp: isDeploymentNamed_def)
  then have inres: "?M ! i \<in> set (filter ?keep ?M)" using i len by simp
  have cont: "\<exists>pre post. Template_Containers (?M ! i) =
      Template_Containers b @ pre @ Template_Containers a @ post"
    using merge_contains [OF m ne, of i objects j] i j bi aj da db by simp
  have exact: "length ?ms = 1 \<and> filter (isDeploymentNamed A) objects = [a]
      \<longrightarrow> Template_Containers (?M ! i) = Template_Containers b @ Template_Containers a"
  proof
    assume h: "length ?ms = 1 \<and> filter (isDeploymentNamed A) objects = [a]"
    then obtain x where "?ms = [x]" by (cases ?ms) auto
    with m have ms: "?ms = [?m]" by simp
    from merge_single [OF ne, of i objects a] i bi db h
    have "Template_Containers (mergeContainersIntoDestinationDeployment [?m] objects ! i) =
        Template_Containers b @ Template_Containers a" by simp
    then show "Template_Containers (?M ! i) = Template_Containers b @ Template_Containers a"
      by (simp only: ms)
  qed
  from res noA inres dB cont exact show ?thesis by blast
qed

theorem fixNetworkModeToService_merges_witness:
  "fixNetworkModeToService join_objects join_services =
     Inr [example_objects ! 1,
          example_deployment ''web'' [example_container ''web'', example_container ''cache'']] \<and>
   (\<exists>result. fixNetworkModeToService join_objects join_services = Inr result \<and>
      (\<forall>obj\<in>set result. \<not> isDeploymentNamed ''cache'' obj) \<and>
      (\<exists>b'\<in>set result. isDeploymentNamed ''web'' b' \<and>
         Template_Containers b' = [example_container ''web'', example_container ''cache'']))"
proof -
  have ev: "fixNetworkModeToService join_objects join_services =
     Inr [example_objects ! 1,
          example_deployment ''web'' [example_container ''web'', example_container ''cache'']]"
    by code_simp
  have h1: "join_services ! 0 \<in> set join_services" by (simp add: join_services_def)
  have h2: "Name (join_services ! 0) = ''cache''" by (simp add: join_services_def)
  have h3: "NetworkMode (join_services ! 0) = ''service:'' @ ''web''"
    by (simp add: join_services_def)
  have h4: "CHR '':'' \<notin> set ''web''" by simp
  have h5: "\<forall>s\<in>set join_services. Name s = ''web'' \<longrightarrow> \<not> Contains (NetworkMode s) NetworkModeService"
    by (simp add: join_services_def NetworkModeService_def)
  have h6: "join_objects ! 0 \<in> set join_objects" by (simp add: join_objects_def)
  have h7: "isDeploymentNamed ''cache'' (join_objects ! 0)"
    by (simp add: join_objects_def isDeploymentNamed_def example_deployment_def)
  have h8: "join_objects ! 2 \<in> set join_objects" by (simp add: join_objects_def)
  have h9: "isDeploymentNamed ''web'' (join_objects ! 2)"
    by (simp add: join_objects_def isDeploymentNamed_def example_deployment_def)
  have l: "length (searchNetworkModeToService join_services) = 1" by code_simp
  have f: "filter (isDeploymentNamed ''cache'') join_objects = [join_objects ! 0]" by code_simp
  have ca: "Template_Containers (join_objects ! 0) = [example_container ''cache'']"
    by (simp add: join_objects_def example_deployment_def)
  have cb: "Template_Containers (join_objects ! 2) = [example_container ''web'']"
    by (simp add: join_objects_def example_deployment_def)
  from fixNetworkModeToService_merges [OF h1 h2 h3 h4 h5 h6 h7 h8 h9] l f ca cb
  have "\<exists>result. fixNetworkModeToService join_objects join_services = Inr result \<and>
      (\<forall>obj\<in>set result. \<not> isDeploymentNamed ''cache'' obj) \<and>
      (\<exists>b'\<in>set result. isDeploymentNamed ''web'' b' \<and>
         Template_Containers b' = [example_container ''web'', example_container ''cache''])"
    by (metis append_Cons append_Nil)
  with ev show ?thesis by blast
qed

text \<open>
  C1 (as stated) fails on a chain: \<open>a\<close> joins \<open>b\<close> and \<open>b\<close> joins \<open>c\<close>, all three are
  Deployments, and after the pass no Deployment named \<open>b\<close> is left to hold the containers
  of \<open>a\<close> and \<open>b\<close>.
\<close>

theorem fixNetworkModeToService_chain_drops_target:
  "NetworkMode (chain_services ! 0) = ''service:b'' \<and> Name (chain_services ! 0) = ''a'' \<and>
   Name (chain_services ! 1) = ''b'' \<and>
   isDeploymentNamed ''a'' (chain_objects ! 0) \<and> isDeploymentNamed ''b'' (chain_objects ! 1) \<and>
   fixNetworkModeToService chain_objects chain_services =
     Inr [example_deployment ''c''
            [example_container ''c'', example_container ''b'', example_container ''a'']]"
  by code_simp

end
